theory Spec2Isabelle
  imports Main
begin

section \<open>Text\<close>

text \<open>
  A Python \<open>str\<close> is modelled as a \<open>string\<close> whose characters are the code points
  0 to 255. The character classes below are the ones Python 3 uses on that range:
  \<open>str.isspace\<close> and the pattern \<open>\s\<close> agree there, \<open>\d\<close> is the ten ASCII
  digits, and \<open>\w\<close> is \<open>str.isalnum\<close> together with the underscore.
\<close>

definition isspace :: "char \<Rightarrow> bool" where
  "isspace c = (let n = (of_char c :: int) in
     (9 \<le> n \<and> n \<le> 13) \<or> (28 \<le> n \<and> n \<le> 32) \<or> n = 133 \<or> n = 160)"

definition isdigit :: "char \<Rightarrow> bool" where
  "isdigit c = (let n = (of_char c :: int) in 48 \<le> n \<and> n \<le> 57)"

definition isword :: "char \<Rightarrow> bool" where
  "isword c = (let n = (of_char c :: int) in
     (48 \<le> n \<and> n \<le> 57) \<or> (65 \<le> n \<and> n \<le> 90) \<or> n = 95 \<or> (97 \<le> n \<and> n \<le> 122) \<or>
     n = 170 \<or> n = 178 \<or> n = 179 \<or> n = 181 \<or> n = 185 \<or> n = 186 \<or>
     (188 \<le> n \<and> n \<le> 190) \<or> (192 \<le> n \<and> n \<le> 214) \<or> (216 \<le> n \<and> n \<le> 246) \<or>
     (248 \<le> n \<and> n \<le> 255))"

text \<open>The explicit class \<open>[A-Za-z0-9]\<close> of the column-name patterns.\<close>

definition is_ascii_alnum :: "char \<Rightarrow> bool" where
  "is_ascii_alnum c = (let n = (of_char c :: int) in
     (48 \<le> n \<and> n \<le> 57) \<or> (65 \<le> n \<and> n \<le> 90) \<or> (97 \<le> n \<and> n \<le> 122))"

text \<open>
  The pattern \<open>.\<close>: any character but the newline, and any character at all under
  \<open>re.DOTALL\<close>.
\<close>

definition dot :: "char \<Rightarrow> bool" where
  "dot c = (c \<noteq> CHR 0x0A)"

definition dot_all :: "char \<Rightarrow> bool" where
  "dot_all c = True"

text \<open>\<open>str.lower\<close> on one character.\<close>

definition lower_chr :: "char \<Rightarrow> char" where
  "lower_chr c = (let n = (of_char c :: int) in
     if (65 \<le> n \<and> n \<le> 90) \<or> (192 \<le> n \<and> n \<le> 222 \<and> n \<noteq> 215) then char_of (n + 32) else c)"

definition lower :: "string \<Rightarrow> string" where
  "lower s = map lower_chr s"

text \<open>\<open>s.strip()\<close> and \<open>s.strip(chars)\<close>, by the class of characters removed.\<close>

definition strip :: "(char \<Rightarrow> bool) \<Rightarrow> string \<Rightarrow> string" where
  "strip P s = rev (dropWhile P (rev (dropWhile P s)))"

text \<open>\<open>s.split()\<close>: the maximal runs of characters that are not white space.\<close>

fun split_run :: "string \<Rightarrow> string \<Rightarrow> string list" where
  "split_run [] w = (if w = [] then [] else [rev w])"
| "split_run (c # cs) w =
     (if isspace c then (if w = [] then split_run cs [] else rev w # split_run cs [])
      else split_run cs (c # w))"

definition split :: "string \<Rightarrow> string list" where
  "split s = split_run s []"

text \<open>\<open>sep.join(xs)\<close>.\<close>

fun join :: "string \<Rightarrow> string list \<Rightarrow> string" where
  "join sep [] = []"
| "join sep [x] = x"
| "join sep (x # y # ys) = x @ sep @ join sep (y # ys)"

text \<open>
  The number that a text of ASCII digits writes, and the decimal writing of an integer.
\<close>

definition digit_val :: "char \<Rightarrow> int" where
  "digit_val c = of_char c - 48"

definition int_of_digits :: "string \<Rightarrow> int" where
  "int_of_digits s = foldl (\<lambda>a c. 10 * a + digit_val c) 0 s"

function decimal :: "int \<Rightarrow> string" where
  "decimal n =
     (if n < 0 then CHR ''-'' # decimal (- n)
      else if n < 10 then [char_of (48 + n)]
      else decimal (n div 10) @ [char_of (48 + n mod 10)])"
  by pat_completeness auto
termination
  by (relation "measure (\<lambda>n. nat (2 * \<bar>n\<bar> + (if n < 0 then 1 else 0)))") auto

declare decimal.simps [simp del]

text \<open>
  An exception is a value: a computation that can raise returns the exception on the left
  or its result on the right, and \<open>and_then\<close> goes on with the result of the first step
  unless that step raised. \<open>try_map\<close> is a comprehension whose body can raise: it stops at
  the first element on which it does.
\<close>

datatype error = ValueError

definition and_then :: "error + 'a \<Rightarrow> ('a \<Rightarrow> error + 'b) \<Rightarrow> error + 'b" where
  "and_then r f = (case r of Inl e \<Rightarrow> Inl e | Inr x \<Rightarrow> f x)"

fun try_map :: "('a \<Rightarrow> error + 'b) \<Rightarrow> 'a list \<Rightarrow> error + 'b list" where
  "try_map f [] = Inr []"
| "try_map f (x # xs) =
     (case f x of
        Inl e \<Rightarrow> Inl e
      | Inr y \<Rightarrow> (case try_map f xs of Inl e \<Rightarrow> Inl e | Inr ys \<Rightarrow> Inr (y # ys)))"

text \<open>
  \<open>int(s)\<close> on a text of ASCII digits (the only texts the program passes to it are
  captures of \<open>\d+\<close> and of \<open>\d{1,n}\<close>), and \<open>str(n)\<close>, which is also what an f-string
  does with an integer. CPython, from 3.11 on and with its default setting, converts no
  text of more than 4300 digits to an integer and no integer of more than 4300 digits to a
  text: both conversions then raise \<open>ValueError\<close>. The digits counted by \<open>int\<close> are
  those of the text, leading zeros included; those counted by \<open>str\<close> are the digits of
  the number, without its sign.
\<close>

definition int_max_str_digits :: int where
  "int_max_str_digits = 4300"

definition py_int :: "string \<Rightarrow> error + int" where
  "py_int s =
     (if int_max_str_digits < int (length s) then Inl ValueError else Inr (int_of_digits s))"

definition py_str :: "int \<Rightarrow> error + string" where
  "py_str n =
     (if int_max_str_digits < int (length (decimal \<bar>n\<bar>)) then Inl ValueError
      else Inr (decimal n))"


section \<open>Regular expressions\<close>

text \<open>
  The fragment of Python's \<open>re\<close> the program uses. A repetition is always over one
  character class: \<open>Rep greedy lo hi P\<close> is \<open>[P]{lo,hi}\<close>, with \<open>hi = None\<close> for no upper
  bound, lazy (\<open>+?\<close>, \<open>*?\<close>) when \<open>greedy\<close> is false. \<open>Grp n r\<close> is the capture group
  number \<open>n\<close>, and \<open>WordB\<close> is \<open>\b\<close>.
\<close>

datatype regex =
    Lit string
  | Cls "char \<Rightarrow> bool"
  | Rep bool nat "nat option" "char \<Rightarrow> bool"
  | Opt regex
  | Seq regex regex
  | Alt regex regex
  | Grp nat regex
  | WordB

type_synonym caps = "nat \<rightharpoonup> string"

text \<open>Comparing a pattern character with a text character; \<open>ci\<close> is \<open>re.IGNORECASE\<close>.\<close>

definition chr_eq :: "bool \<Rightarrow> char \<Rightarrow> char \<Rightarrow> bool" where
  "chr_eq ci a b = (if ci then lower_chr a = lower_chr b else a = b)"

fun lit_prefix :: "bool \<Rightarrow> string \<Rightarrow> string \<Rightarrow> bool" where
  "lit_prefix ci [] s = True"
| "lit_prefix ci (a # as) [] = False"
| "lit_prefix ci (a # as) (c # cs) = (if chr_eq ci a c then lit_prefix ci as cs else False)"

text \<open>
  \<open>\b\<close> looks at the character before the cursor (\<open>None\<close> at the start of the text)
  and at the text from the cursor on.
\<close>

definition word_before :: "char option \<Rightarrow> bool" where
  "word_before p = (case p of None \<Rightarrow> False | Some c \<Rightarrow> isword c)"

definition word_after :: "string \<Rightarrow> bool" where
  "word_after s = (case s of [] \<Rightarrow> False | c # _ \<Rightarrow> isword c)"

definition last_chr :: "char option \<Rightarrow> string \<Rightarrow> char option" where
  "last_chr p t = (if t = [] then p else Some (last t))"

text \<open>
  \<open>rx_match ci r p s g\<close> matches \<open>r\<close> at the cursor, where \<open>p\<close> is the character before
  the cursor, \<open>s\<close> the text from the cursor on and \<open>g\<close> the groups captured so far. It
  lists every way the match can end, as the text consumed, the text left and the groups,
  in the order in which the backtracking matcher tries them: the head of the list is the
  match Python reports.
\<close>

fun rx_match :: "bool \<Rightarrow> regex \<Rightarrow> char option \<Rightarrow> string \<Rightarrow> caps \<Rightarrow> (string \<times> string \<times> caps) list" where
  "rx_match ci (Lit lit) p s g =
     (if lit_prefix ci lit s then [(take (length lit) s, drop (length lit) s, g)] else [])"
| "rx_match ci (Cls P) p s g =
     (case s of [] \<Rightarrow> [] | c # cs \<Rightarrow> if P c then [([c], cs, g)] else [])"
| "rx_match ci (Rep greedy lo hi P) p s g =
     (let run = length (takeWhile P s);
          most = (case hi of None \<Rightarrow> run | Some h \<Rightarrow> min h run);
          counts = [lo ..< Suc most]
      in map (\<lambda>n. (take n s, drop n s, g)) (if greedy then rev counts else counts))"
| "rx_match ci (Opt r) p s g = rx_match ci r p s g @ [([], s, g)]"
| "rx_match ci (Seq r1 r2) p s g =
     concat (map (\<lambda>(t1, s1, g1).
                    map (\<lambda>(t2, s2, g2). (t1 @ t2, s2, g2)) (rx_match ci r2 (last_chr p t1) s1 g1))
                 (rx_match ci r1 p s g))"
| "rx_match ci (Alt r1 r2) p s g = rx_match ci r1 p s g @ rx_match ci r2 p s g"
| "rx_match ci (Grp n r) p s g = map (\<lambda>(t, s', g'). (t, s', g'(n \<mapsto> t))) (rx_match ci r p s g)"
| "rx_match ci WordB p s g = (if word_before p \<noteq> word_after s then [([], s, g)] else [])"

text \<open>
  A match object. \<open>m.start()\<close> and \<open>m.end()\<close> are the lengths of the text before the
  match and of the text up to its end.
\<close>

record rmatch =
  m_before :: string
  m_text :: string
  m_after :: string
  m_groups :: caps

definition m_start :: "rmatch \<Rightarrow> nat" where
  "m_start m = length (m_before m)"

definition m_end :: "rmatch \<Rightarrow> nat" where
  "m_end m = length (m_before m) + length (m_text m)"

text \<open>
  \<open>m.group(n)\<close>; a group that took no part reads as the empty string, as in the tuples
  of \<open>findall\<close>.
\<close>

definition group :: "rmatch \<Rightarrow> nat \<Rightarrow> string" where
  "group m n = (case m_groups m n of None \<Rightarrow> [] | Some g \<Rightarrow> g)"

text \<open>
  The scan of \<open>search\<close>: the leftmost start at which the pattern matches. \<open>seen\<close> is the
  text before the cursor, last character first. With \<open>adv\<close> set, an empty match at the
  first start is refused, as the matcher does right after an empty match.
\<close>

definition prev_of :: "string \<Rightarrow> char option" where
  "prev_of seen = (case seen of [] \<Rightarrow> None | c # _ \<Rightarrow> Some c)"

definition rx_at :: "bool \<Rightarrow> regex \<Rightarrow> bool \<Rightarrow> string \<Rightarrow> string \<Rightarrow> (string \<times> string \<times> caps) list" where
  "rx_at ci r adv seen s =
     (if adv then filter (\<lambda>(t, s', g). t \<noteq> []) (rx_match ci r (prev_of seen) s Map.empty)
      else rx_match ci r (prev_of seen) s Map.empty)"

definition found_at :: "string \<Rightarrow> string \<times> string \<times> caps \<Rightarrow> rmatch" where
  "found_at seen res =
     (case res of (t, s', g) \<Rightarrow> \<lparr>m_before = rev seen, m_text = t, m_after = s', m_groups = g\<rparr>)"

fun rx_scan :: "bool \<Rightarrow> regex \<Rightarrow> bool \<Rightarrow> string \<Rightarrow> string \<Rightarrow> rmatch option" where
  "rx_scan ci r adv seen [] =
     (case rx_at ci r adv seen [] of [] \<Rightarrow> None | res # _ \<Rightarrow> Some (found_at seen res))"
| "rx_scan ci r adv seen (c # cs) =
     (case rx_at ci r adv seen (c # cs) of
        [] \<Rightarrow> rx_scan ci r False (c # seen) cs
      | res # _ \<Rightarrow> Some (found_at seen res))"

definition re_search :: "bool \<Rightarrow> regex \<Rightarrow> string \<Rightarrow> rmatch option" where
  "re_search ci r s = rx_scan ci r False [] s"

text \<open>
  The matcher only moves forward: what a match consumes and what it leaves make up the
  text it started on.
\<close>

lemma lit_prefix_length: "lit_prefix ci lit s \<Longrightarrow> length lit \<le> length s"
  by (induction ci lit s rule: lit_prefix.induct) (auto split: if_splits)

lemma rx_match_splits:
  "(t, s', g') \<in> set (rx_match ci r p s g) \<Longrightarrow> s = t @ s'"
proof (induction r arbitrary: t s' g' p s g)
  case (Seq r1 r2)
  then obtain t1 s1 g1 t2 where
    "(t1, s1, g1) \<in> set (rx_match ci r1 p s g)"
    "(t2, s', g') \<in> set (rx_match ci r2 (last_chr p t1) s1 g1)" "t = t1 @ t2"
    by auto
  with Seq.IH show ?case by fastforce
qed (auto split: if_splits list.splits simp: Let_def)

lemma rx_at_splits:
  "(t, s', g') \<in> set (rx_at ci r adv seen s) \<Longrightarrow> s = t @ s' \<and> (adv \<longrightarrow> t \<noteq> [])"
  by (auto simp: rx_at_def dest: rx_match_splits split: if_splits)

lemma rx_scan_splits:
  "rx_scan ci r adv seen s = Some m \<Longrightarrow>
   \<exists>gap. m_before m = rev seen @ gap \<and> s = gap @ m_text m @ m_after m
     \<and> (adv \<and> gap = [] \<longrightarrow> m_text m \<noteq> [])"
proof (induction s arbitrary: adv seen)
  case Nil
  then obtain t s' g' where "(t, s', g') \<in> set (rx_at ci r adv seen [])"
      "m = found_at seen (t, s', g')"
    by (cases "rx_at ci r adv seen []") auto
  with rx_at_splits [OF this(1)] have "m_before m = rev seen @ [] \<and> [] = [] @ m_text m @ m_after m
      \<and> (adv \<and> ([]::string) = [] \<longrightarrow> m_text m \<noteq> [])"
    by (auto simp: found_at_def)
  then show ?case by blast
next
  case (Cons c cs)
  show ?case
  proof (cases "rx_at ci r adv seen (c # cs)")
    case Nil
    with Cons.prems have "rx_scan ci r False (c # seen) cs = Some m" by simp
    from Cons.IH [OF this] obtain gap where
      "m_before m = rev (c # seen) @ gap" "cs = gap @ m_text m @ m_after m" by blast
    then have "m_before m = rev seen @ (c # gap) \<and> c # cs = (c # gap) @ m_text m @ m_after m
        \<and> (adv \<and> c # gap = [] \<longrightarrow> m_text m \<noteq> [])"
      by simp
    then show ?thesis by blast
  next
    case (Cons res rs)
    obtain t s' g' where res: "res = (t, s', g')" by (cases res) auto
    with Cons have "(t, s', g') \<in> set (rx_at ci r adv seen (c # cs))" by simp
    from rx_at_splits [OF this] have "c # cs = t @ s'" "adv \<longrightarrow> t \<noteq> []" by simp_all
    moreover from Cons res Cons.prems have "m = found_at seen (t, s', g')" by simp
    ultimately have "m_before m = rev seen @ [] \<and> c # cs = [] @ m_text m @ m_after m
        \<and> (adv \<and> ([]::string) = [] \<longrightarrow> m_text m \<noteq> [])"
      by (simp add: found_at_def)
    then show ?thesis by blast
  qed
qed

text \<open>
  The matches of \<open>finditer\<close>, from left to right and without overlap: each scan starts
  where the match before it ended, and after an empty match the next one must advance.
\<close>

function rx_iter :: "bool \<Rightarrow> regex \<Rightarrow> bool \<Rightarrow> string \<Rightarrow> string \<Rightarrow> rmatch list" where
  "rx_iter ci r adv seen s =
     (case rx_scan ci r adv seen s of
        None \<Rightarrow> []
      | Some m \<Rightarrow> m # rx_iter ci r (m_text m = []) (rev (m_text m) @ rev (m_before m)) (m_after m))"
  by pat_completeness auto
termination
proof (relation "measure (\<lambda>(ci, r, adv, seen, s). 2 * length s + (if adv then 0 else 1))")
  show "wf (measure (\<lambda>(ci, r, adv, seen, s). 2 * length s + (if adv then 0 else 1)))"
    by simp
next
  fix ci r adv seen s m
  assume "rx_scan ci r adv seen s = Some m"
  from rx_scan_splits [OF this] obtain gap where
    gap: "s = gap @ m_text m @ m_after m" "adv \<and> gap = [] \<longrightarrow> m_text m \<noteq> []" by blast
  then have len: "length s = length gap + length (m_text m) + length (m_after m)"
    by (metis length_append add.assoc)
  show "((ci, r, m_text m = [], rev (m_text m) @ rev (m_before m), m_after m), (ci, r, adv, seen, s))
        \<in> measure (\<lambda>(ci, r, adv, seen, s). 2 * length s + (if adv then 0 else 1))"
  proof (cases "gap = [] \<and> m_text m = []")
    case True
    with gap(2) have "\<not> adv" by auto
    with len True show ?thesis by simp
  next
    case False
    then have "0 < length gap + length (m_text m)" by auto
    with len have "2 * length (m_after m) + 2 \<le> 2 * length s" by arith
    then show ?thesis by (simp split: if_splits)
  qed
qed

declare rx_iter.simps [simp del]

text \<open>\<open>re.finditer\<close>, and \<open>re.sub\<close> with a literal replacement.\<close>

definition re_finditer :: "bool \<Rightarrow> regex \<Rightarrow> string \<Rightarrow> rmatch list" where
  "re_finditer ci r s = rx_iter ci r False [] s"

fun sub_build :: "string \<Rightarrow> string \<Rightarrow> nat \<Rightarrow> rmatch list \<Rightarrow> string" where
  "sub_build repl s cur [] = drop cur s"
| "sub_build repl s cur (m # ms) =
     take (m_start m - cur) (drop cur s) @ repl @ sub_build repl s (m_end m) ms"

definition re_sub :: "bool \<Rightarrow> regex \<Rightarrow> string \<Rightarrow> string \<Rightarrow> string" where
  "re_sub ci r repl s = sub_build repl s 0 (re_finditer ci r s)"

text \<open>\<open>re.fullmatch\<close>: some way of matching from the start of the text leaves nothing.\<close>

definition re_fullmatch :: "bool \<Rightarrow> regex \<Rightarrow> string \<Rightarrow> bool" where
  "re_fullmatch ci r s = list_ex (\<lambda>(t, s', g). s' = []) (rx_match ci r None s Map.empty)"

text \<open>Patterns written as lists: a sequence, and the alternation \<open>a|b|c\<close>.\<close>

fun seqs :: "regex list \<Rightarrow> regex" where
  "seqs [] = Lit []"
| "seqs [r] = r"
| "seqs (r # rs) = Seq r (seqs rs)"

fun alts :: "regex list \<Rightarrow> regex" where
  "alts [] = Lit []"
| "alts [r] = r"
| "alts (r # rs) = Alt r (alts rs)"

abbreviation Plus :: "(char \<Rightarrow> bool) \<Rightarrow> regex" where
  "Plus P \<equiv> Rep True 1 None P"

abbreviation Star :: "(char \<Rightarrow> bool) \<Rightarrow> regex" where
  "Star P \<equiv> Rep True 0 None P"

abbreviation LazyPlus :: "(char \<Rightarrow> bool) \<Rightarrow> regex" where
  "LazyPlus P \<equiv> Rep False 1 None P"

abbreviation LazyStar :: "(char \<Rightarrow> bool) \<Rightarrow> regex" where
  "LazyStar P \<equiv> Rep False 0 None P"


section \<open>Rows\<close>

text \<open>
  The values the program stores in its dictionaries and that a data frame holds in its
  cells: a missing value (\<open>None\<close>, NaN), a string, or an integer.
\<close>

datatype cell = NA | Str string | Num int

type_synonym row = "string \<rightharpoonup> cell"


section \<open>The industry catalog\<close>

definition ALLOWED_INDUSTRIES :: "string list" where
  "ALLOWED_INDUSTRIES =
     [''Agriculture'',
      ''Construction & Renovation'',
      ''ECO liable to deduct TCS u/s 52'',
      ''ECO liable to pay GST u/s 9(5)'',
      ''Education'',
      ''Entertainment / Media'',
      ''Finance / Legal / Insurance'',
      ''Food / Hospitality / Tourism / Beverage'',
      ''Government'',
      ''HR / Administrative / Consulting'',
      ''Health / Social Welfare / Pharmaceutical'',
      ''Households'',
      ''IT / Communication / Marketing'',
      ''Manufacturing / Maintenance'',
      ''Mining & Quarrying'',
      ''NGO'',
      ''Other Services'',
      ''Real Estate'',
      ''Science & Technology'',
      ''Transportation/Logistics'',
      ''Utilities / Energy / Water supply'',
      ''Wholesale / Retail'']"

text \<open>
  \<open>make_safe_ri_column\<close>: strip, then \<open>\s+\<close> to one space, \<open>[^A-Za-z0-9]+\<close> to one
  underscore, \<open>_+\<close> to one underscore, strip the underscores, and put \<open>RI_\<close> in front.
\<close>

definition make_safe_ri_column :: "string \<Rightarrow> string" where
  "make_safe_ri_column label =
     (let lab = strip isspace label;
          lab = re_sub False (Plus isspace) '' '' lab;
          lab = re_sub False (Plus (\<lambda>c. \<not> is_ascii_alnum c)) ''_'' lab;
          lab = strip (\<lambda>c. c = CHR ''_'') (re_sub False (Plus (\<lambda>c. c = CHR ''_'')) ''_'' lab)
      in ''RI_'' @ lab)"

definition ALLOWED_LABEL_TO_RI_COL :: "string \<rightharpoonup> string" where
  "ALLOWED_LABEL_TO_RI_COL = map_of (map (\<lambda>lab. (lab, make_safe_ri_column lab)) ALLOWED_INDUSTRIES)"

text \<open>
  \<open>ALLOWED_RI_COLS\<close> looks every label up in the dictionary built from the same labels
  (no lookup can miss: \<open>ALLOWED_RI_COLS_map\<close> below).
\<close>

definition ALLOWED_RI_COLS :: "string list" where
  "ALLOWED_RI_COLS = map (\<lambda>lab. the (ALLOWED_LABEL_TO_RI_COL lab)) ALLOWED_INDUSTRIES"

definition init_ri_zero_dict :: row where
  "init_ri_zero_dict = map_of (map (\<lambda>col. (col, Num 0)) ALLOWED_RI_COLS)"


section \<open>The list page\<close>

text \<open>\<open>TIER_RE = \b(Gold|Silver|Ready)\b\<close>\<close>

definition TIER_RE :: regex where
  "TIER_RE = seqs [WordB, Grp 1 (alts [Lit ''Gold'', Lit ''Silver'', Lit ''Ready'']), WordB]"

text \<open>\<open>REFS_RE = \b(\d+)\s+References?\b\<close>\<close>

definition REFS_RE :: regex where
  "REFS_RE = seqs [WordB, Grp 1 (Plus isdigit), Plus isspace, Lit ''Reference'', Opt (Lit ''s''), WordB]"

text \<open>\<open>EXPERTS_RE = \b(\d+)\s+Certified Experts?\b\<close>\<close>

definition EXPERTS_RE :: regex where
  "EXPERTS_RE =
     seqs [WordB, Grp 1 (Plus isdigit), Plus isspace, Lit ''Certified Expert'', Opt (Lit ''s''), WordB]"

text \<open>\<open>LOC_RE = %\s+(.+?)\s+Average Project:\<close>, compiled with \<open>re.DOTALL\<close>\<close>

definition LOC_RE :: regex where
  "LOC_RE = seqs [Lit ''%'', Plus isspace, Grp 1 (LazyPlus dot_all), Plus isspace, Lit ''Average Project:'']"

text \<open>The normalization \<open>" ".join(text.split()).strip()\<close>.\<close>

definition normalize_text :: "string \<Rightarrow> string" where
  "normalize_text raw = strip isspace (join '' '' (split raw))"

text \<open>The three optional fields with their defaults, read from the normalized text.\<close>

definition location_of :: "string \<Rightarrow> string" where
  "location_of text =
     (case re_search False LOC_RE text of
        Some m_loc \<Rightarrow> strip (\<lambda>c. c \<in> set '' ,'') (group m_loc 1)
      | None \<Rightarrow> ''N/A'')"

definition refs_of :: "string \<Rightarrow> string" where
  "refs_of text =
     (case re_search False REFS_RE text of Some m_refs \<Rightarrow> group m_refs 1 | None \<Rightarrow> ''0'')"

definition experts_of :: "string \<Rightarrow> string" where
  "experts_of text =
     (case re_search False EXPERTS_RE text of Some m_exp \<Rightarrow> group m_exp 1 | None \<Rightarrow> ''0'')"

definition parse_partner_text :: "string \<Rightarrow> row option" where
  "parse_partner_text raw =
     (let text = normalize_text raw in
      case re_search False TIER_RE text of
        None \<Rightarrow> None
      | Some m_tier \<Rightarrow>
          let tier = group m_tier 1;
              name = strip isspace (take (m_start m_tier) text)
          in if name = [] \<or> lower name = ''find best match'' then None
             else
               let location = location_of text;
                   refs = refs_of text;
                   experts = experts_of text
               in if location = ''N/A'' \<and> refs = ''0'' \<and> experts = ''0'' then None
                  else Some [''Partner Name'' \<mapsto> Str name,
                             ''Tier'' \<mapsto> Str tier,
                             ''Location'' \<mapsto> Str location,
                             ''References'' \<mapsto> Str refs,
                             ''Certified Experts'' \<mapsto> Str experts])"


section \<open>The profile page\<close>

text \<open>
  A dictionary whose order of insertion matters is a list of pairs: a new key goes to the
  end, an old key keeps its place.
\<close>

fun dict_set :: "('k \<times> 'v) list \<Rightarrow> 'k \<Rightarrow> 'v \<Rightarrow> ('k \<times> 'v) list" where
  "dict_set [] k v = [(k, v)]"
| "dict_set ((k', v') # d) k v = (if k' = k then (k, v) # d else (k', v') # dict_set d k v)"

text \<open>
  \<open>d[k]\<close>. The program reads only keys it has stored (\<open>dedup_loop_order\<close> below), so
  the value for a missing key is never used.
\<close>

definition dict_at :: "('k \<times> int) list \<Rightarrow> 'k \<Rightarrow> int" where
  "dict_at d k = (case map_of d k of None \<Rightarrow> 0 | Some v \<Rightarrow> v)"

text \<open>\<open>re.findall\<close> for a pattern with two groups: the pairs of captures.\<close>

definition re_findall2 :: "bool \<Rightarrow> regex \<Rightarrow> string \<Rightarrow> (string \<times> string) list" where
  "re_findall2 ci r s = map (\<lambda>m. (group m 1, group m 2)) (re_finditer ci r s)"

text \<open>\<open>\b(\d+)\s+Certified\s+v(\d+)\b\<close>\<close>

definition CERT_RE :: regex where
  "CERT_RE = seqs [WordB, Grp 1 (Plus isdigit), Plus isspace, Lit ''Certified'', Plus isspace,
                   Lit ''v'', Grp 2 (Plus isdigit), WordB]"

text \<open>\<open>\bReferences\s*-\s*(\d+)\b\<close>\<close>

definition TOTAL_RE :: regex where
  "TOTAL_RE = seqs [WordB, Lit ''References'', Star isspace, Lit ''-'', Star isspace,
                    Grp 1 (Plus isdigit), WordB]"

text \<open>\<open>\bCustomer\s+Retention\b.*?\b(\d{1,3})\s*%?\b\<close>\<close>

definition RETENTION_RE :: regex where
  "RETENTION_RE = seqs [WordB, Lit ''Customer'', Plus isspace, Lit ''Retention'', WordB, LazyStar dot,
                        WordB, Grp 1 (Rep True 1 (Some 3) isdigit), Star isspace, Opt (Lit ''%''), WordB]"

text \<open>\<open>\bReferences\s+Sizes\b.*?\bLargest:\s*~?\s*(\d+)\s*\+?\s*users?\b\<close>, and the same
  with \<open>Average:\<close>\<close>

definition sizes_re :: "string \<Rightarrow> regex" where
  "sizes_re which = seqs [WordB, Lit ''References'', Plus isspace, Lit ''Sizes'', WordB, LazyStar dot,
                          WordB, Lit which, Star isspace, Opt (Lit ''~''), Star isspace,
                          Grp 1 (Plus isdigit), Star isspace, Opt (Lit ''+''), Star isspace,
                          Lit ''user'', Opt (Lit ''s''), WordB]"

definition LARGEST_RE :: regex where
  "LARGEST_RE = sizes_re ''Largest:''"

definition AVERAGE_RE :: regex where
  "AVERAGE_RE = sizes_re ''Average:''"

text \<open>The stop markers, joined with \<open>|\<close>.\<close>

definition STOP_RE :: regex where
  "STOP_RE = alts
     [seqs [WordB, Lit ''References'', Plus isspace, Lit ''Sizes'', WordB],
      seqs [WordB, Lit ''Customer'', Plus isspace, Lit ''Retention'', WordB],
      seqs [WordB, Lit ''Certified'', Plus isspace, Lit ''Expert'', Opt (Lit ''s''), WordB],
      seqs [WordB, Lit ''Average'', Plus isspace, Lit ''Project'', WordB],
      seqs [WordB, Lit ''Industries'', WordB],
      seqs [WordB, Lit ''About'', WordB],
      seqs [WordB, Lit ''Gold'', WordB],
      seqs [WordB, Lit ''Silver'', WordB],
      seqs [WordB, Lit ''Ready'', WordB]]"

text \<open>
  \<open>\b(\d{1,6})\s+(label_alt)\b\<close>, where \<open>label_alt\<close> joins the escaped labels, the
  longest first (\<open>sorted\<close> is stable, also with \<open>reverse=True\<close>).
\<close>

definition label_alt :: regex where
  "label_alt = alts (map Lit (sort_key (\<lambda>x. - int (length x)) ALLOWED_INDUSTRIES))"

definition INDUSTRY_RE :: regex where
  "INDUSTRY_RE = seqs [WordB, Grp 1 (Rep True 1 (Some 6) isdigit), Plus isspace, Grp 2 label_alt, WordB]"

text \<open>
  The certified versions: the counts summed by version, the versions sorted by number,
  the highest first, rendered as \<open>v19:1; v18:4\<close>.
\<close>

fun cert_agg :: "(string \<times> string) list \<Rightarrow> (string \<times> int) list \<Rightarrow> error + (string \<times> int) list" where
  "cert_agg [] agg = Inr agg"
| "cert_agg ((cnt, ver) # pairs) agg =
     (let key = ''v'' @ ver
      in case py_int cnt of
           Inl e \<Rightarrow> Inl e
         | Inr n \<Rightarrow>
             cert_agg pairs (dict_set agg key ((case map_of agg key of None \<Rightarrow> 0 | Some a \<Rightarrow> a) + n)))"

text \<open>
  \<open>sorted\<close> computes the key of every element, here \<open>int(x[1:])\<close>, before it sorts;
  then the entries are rendered one by one.
\<close>

definition certified_versions :: "(string \<times> string) list \<Rightarrow> error + string" where
  "certified_versions cert_pairs =
     and_then (cert_agg cert_pairs []) (\<lambda>agg.
     and_then (try_map (\<lambda>x. py_int (drop 1 x)) (map fst agg)) (\<lambda>nums.
       let keys = map fst (sort_key (\<lambda>kn. - snd kn) (zip (map fst agg) nums))
       in and_then (try_map (\<lambda>k. and_then (py_str (dict_at agg k)) (\<lambda>v. Inr (k @ '':'' @ v))) keys)
            (\<lambda>parts. Inr (join ''; '' parts))))"

text \<open>
  The loop over the industries found: \<open>order\<close> keeps the labels as first seen, \<open>dedup\<close>
  the greatest count of each.
\<close>

fun dedup_loop :: "(string \<times> string) list \<Rightarrow> (string \<times> int) list \<Rightarrow> string list \<Rightarrow>
    error + (string \<times> int) list \<times> string list" where
  "dedup_loop [] dedup order = Inr (dedup, order)"
| "dedup_loop ((n_str, lab) # found) dedup order =
     (case py_int n_str of
        Inl e \<Rightarrow> Inl e
      | Inr n \<Rightarrow>
          (case map_of dedup lab of
             None \<Rightarrow> dedup_loop found (dict_set dedup lab n) (order @ [lab])
           | Some old \<Rightarrow> dedup_loop found (dict_set dedup lab (max old n)) order))"

text \<open>The loop that fills the fixed columns from \<open>dedup.items()\<close>.\<close>

fun fill_ri :: "(string \<times> int) list \<Rightarrow> row \<Rightarrow> row" where
  "fill_ri [] extras = extras"
| "fill_ri ((lab, cnt) # items) extras =
     (case ALLOWED_LABEL_TO_RI_COL lab of
        None \<Rightarrow> fill_ri items extras
      | Some col \<Rightarrow> if col \<noteq> [] then fill_ri items (extras(col \<mapsto> Num cnt)) else fill_ri items extras)"

definition default_extras :: row where
  "default_extras =
     [''Certified Versions'' \<mapsto> Str [],
      ''References Total'' \<mapsto> NA,
      ''Customer Retention %'' \<mapsto> NA,
      ''Largest Reference Users'' \<mapsto> NA,
      ''Average Reference Users'' \<mapsto> NA,
      ''Reference Industries'' \<mapsto> Str []] ++ init_ri_zero_dict"

text \<open>
  The bounded block of industries: the text after the match of the total, cut at the
  first stop marker; and the pairs (count, label) found in it.
\<close>

definition industry_block :: "string \<Rightarrow> rmatch \<Rightarrow> string" where
  "industry_block norm m_total =
     (let tail = strip isspace (drop (m_end m_total) norm)
      in case re_search True STOP_RE tail of
           Some m_stop \<Rightarrow> strip isspace (take (m_start m_stop) tail)
         | None \<Rightarrow> tail)"

definition found_industries :: "string \<Rightarrow> rmatch \<Rightarrow> (string \<times> string) list" where
  "found_industries norm m_total = re_findall2 False INDUSTRY_RE (industry_block norm m_total)"

text \<open>
  The part of \<open>fetch_profile_extras\<close> that reads the normalized text of the page. It
  returns the extras, or raises where a conversion raises: none of them is inside a
  \<open>try\<close>.
\<close>

definition parse_profile :: "string \<Rightarrow> error + row" where
  "parse_profile norm =
     (let extras = default_extras;
          cert_pairs = re_findall2 True CERT_RE norm
      in
      and_then (if cert_pairs \<noteq> []
                then and_then (certified_versions cert_pairs)
                       (\<lambda>v. Inr (extras(''Certified Versions'' \<mapsto> Str v)))
                else Inr extras) (\<lambda>extras.
      let m_total = re_search True TOTAL_RE norm in
      and_then (case m_total of
                  Some m \<Rightarrow> and_then (py_int (group m 1))
                              (\<lambda>n. Inr (extras(''References Total'' \<mapsto> Num n)))
                | None \<Rightarrow> Inr extras) (\<lambda>extras.
      and_then (case re_search True RETENTION_RE norm of
                  Some m_ret \<Rightarrow> and_then (py_int (group m_ret 1))
                                  (\<lambda>n. Inr (extras(''Customer Retention %'' \<mapsto> Num n)))
                | None \<Rightarrow> Inr extras) (\<lambda>extras.
      and_then (case re_search True LARGEST_RE norm of
                  Some m_largest \<Rightarrow> and_then (py_int (group m_largest 1))
                                      (\<lambda>n. Inr (extras(''Largest Reference Users'' \<mapsto> Num n)))
                | None \<Rightarrow> Inr extras) (\<lambda>extras.
      and_then (case re_search True AVERAGE_RE norm of
                  Some m_avg \<Rightarrow> and_then (py_int (group m_avg 1))
                                  (\<lambda>n. Inr (extras(''Average Reference Users'' \<mapsto> Num n)))
                | None \<Rightarrow> Inr extras) (\<lambda>extras.
      case m_total of
        None \<Rightarrow> Inr extras
      | Some m \<Rightarrow>
          let found = found_industries norm m
          in if found = [] then Inr extras
             else
               and_then (dedup_loop found [] []) (\<lambda>(dedup, order).
               and_then (try_map (\<lambda>lab. and_then (py_str (dict_at dedup lab))
                                          (\<lambda>v. Inr (lab @ '' '' @ v))) order) (\<lambda>parts.
               Inr (fill_ri dedup (extras(''Reference Industries'' \<mapsto> Str (join '' '' parts))))))))))))"

text \<open>
  The session: what the server answers to a request, and the requests made so far. An
  answer is a status code with a body, or the exception \<open>session.get\<close> raised.
\<close>

datatype response = Response int string | Raised

record session =
  server :: "string \<Rightarrow> response"
  requests :: "string list"

definition session_get :: "session \<Rightarrow> string \<Rightarrow> response \<times> session" where
  "session_get s url = (server s url, s\<lparr>requests := requests s @ [url]\<rparr>)"

text \<open>
  \<open>fetch_profile_extras\<close>. \<open>get_text\<close> stands for the visible text that BeautifulSoup
  extracts from the body; the pause after the request is not modelled.
\<close>

definition fetch_profile_extras :: "(string \<Rightarrow> string) \<Rightarrow> session \<Rightarrow> string option \<Rightarrow> (error + row) \<times> session" where
  "fetch_profile_extras get_text s profile_url =
     (case profile_url of
        None \<Rightarrow> (Inr default_extras, s)
      | Some url \<Rightarrow>
          if url = [] then (Inr default_extras, s)
          else
            (case session_get s url of
               (Raised, s') \<Rightarrow> (Inr default_extras, s')
             | (Response status_code text, s') \<Rightarrow>
                 if status_code \<noteq> 200 then (Inr default_extras, s')
                 else
                   let raw_space = get_text text;
                       norm = strip isspace (re_sub False (Plus isspace) '' '' raw_space)
                   in (parse_profile norm, s')))"


section \<open>The final table\<close>

text \<open>
  A data frame is the list of its rows. A row maps a column label to its cell; a column
  the row does not have reads as a missing value.
\<close>

type_synonym frame = "row list"

definition cell_at :: "row \<Rightarrow> string \<Rightarrow> cell" where
  "cell_at r c = (case r c of None \<Rightarrow> NA | Some v \<Rightarrow> v)"

definition reindex :: "string list \<Rightarrow> frame \<Rightarrow> frame" where
  "reindex cols df = map (\<lambda>r c. if c \<in> set cols then Some (cell_at r c) else None) df"

text \<open>\<open>df[col] = f(df[col])\<close> for an operation \<open>f\<close> that works cell by cell.\<close>

definition set_col :: "string \<Rightarrow> (cell \<Rightarrow> cell) \<Rightarrow> frame \<Rightarrow> frame" where
  "set_col col f df = map (\<lambda>r. r(col \<mapsto> f (cell_at r col))) df"

definition fillna :: "cell \<Rightarrow> cell \<Rightarrow> cell" where
  "fillna v c = (case c of NA \<Rightarrow> v | _ \<Rightarrow> c)"

definition astype_str :: "cell \<Rightarrow> cell" where
  "astype_str c = (case c of NA \<Rightarrow> Str ''nan'' | Str s \<Rightarrow> Str s | Num n \<Rightarrow> Str (decimal n))"

definition str_strip :: "cell \<Rightarrow> cell" where
  "str_strip c = (case c of Str s \<Rightarrow> Str (strip isspace s) | _ \<Rightarrow> c)"

text \<open>
  \<open>pd.to_numeric(..., errors="coerce")\<close> on one cell. How pandas reads a string as a
  number is the parameter \<open>parse\<close>; numbers are integers in this model.
\<close>

definition to_numeric :: "(string \<Rightarrow> int option) \<Rightarrow> cell \<Rightarrow> cell" where
  "to_numeric parse c =
     (case c of NA \<Rightarrow> NA | Num n \<Rightarrow> Num n
      | Str s \<Rightarrow> (case parse s of None \<Rightarrow> NA | Some n \<Rightarrow> Num n))"

text \<open>
  \<open>pd.to_numeric(...).fillna(0).astype(int)\<close>: after \<open>fillna(0)\<close> every cell is an
  integer, which \<open>astype(int)\<close> leaves as it is.
\<close>

definition to_int_col :: "(string \<Rightarrow> int option) \<Rightarrow> cell \<Rightarrow> cell" where
  "to_int_col parse c = fillna (Num 0) (to_numeric parse c)"

text \<open>\<open>.str.fullmatch(r"Find Best Match", case=False, na=False)\<close> on one cell.\<close>

definition is_placeholder :: "cell \<Rightarrow> bool" where
  "is_placeholder c = (case c of Str s \<Rightarrow> re_fullmatch True (Lit ''Find Best Match'') s | _ \<Rightarrow> False)"

definition gt0 :: "cell \<Rightarrow> bool" where
  "gt0 c = (case c of Num n \<Rightarrow> 0 < n | _ \<Rightarrow> False)"

text \<open>\<open>drop_duplicates(subset=...)\<close>: the first row of each key stays.\<close>

fun drop_dups :: "string list \<Rightarrow> cell list list \<Rightarrow> frame \<Rightarrow> frame" where
  "drop_dups cols seen [] = []"
| "drop_dups cols seen (r # rs) =
     (let k = map (cell_at r) cols
      in if k \<in> set seen then drop_dups cols seen rs else r # drop_dups cols (k # seen) rs)"

definition drop_duplicates :: "string list \<Rightarrow> frame \<Rightarrow> frame" where
  "drop_duplicates cols df = drop_dups cols [] df"

definition base_cols :: "string list" where
  "base_cols =
     [''Partner Name'', ''Tier'', ''Location'', ''References'', ''Certified Experts'', ''Profile URL'',
      ''Certified Versions'', ''References Total'', ''Customer Retention %'',
      ''Largest Reference Users'', ''Average Reference Users'',
      ''Reference Industries'']"

definition expected_cols :: "string list" where
  "expected_cols = base_cols @ ALLOWED_RI_COLS"

text \<open>
  \<open>clean_and_export\<close>, up to the table it returns; writing the two files is outside the
  model.
\<close>

definition clean_and_export :: "(string \<Rightarrow> int option) \<Rightarrow> frame \<Rightarrow> frame" where
  "clean_and_export parse df =
     (let df = reindex expected_cols df;
          df = set_col ''Partner Name'' (\<lambda>c. str_strip (astype_str (fillna (Str []) c))) df;
          df = filter (\<lambda>r. cell_at r ''Partner Name'' \<noteq> Str []) df;
          df = filter (\<lambda>r. \<not> is_placeholder (cell_at r ''Partner Name'')) df;
          df = fold (\<lambda>col. set_col col (to_int_col parse)) [''References'', ''Certified Experts''] df;
          df = fold (\<lambda>col. set_col col (to_numeric parse))
                 [''References Total'', ''Customer Retention %'',
                  ''Largest Reference Users'', ''Average Reference Users''] df;
          df = fold (\<lambda>col. set_col col (to_int_col parse)) ALLOWED_RI_COLS df;
          df = filter (\<lambda>r. gt0 (cell_at r ''References'') \<or> gt0 (cell_at r ''Certified Experts'')) df
      in drop_duplicates [''Partner Name'', ''Tier'', ''Location''] df)"



section \<open>The catalog, evaluated\<close>

lemma slug_catalog:
  "map make_safe_ri_column ALLOWED_INDUSTRIES =
     [''RI_Agriculture'', ''RI_Construction_Renovation'', ''RI_ECO_liable_to_deduct_TCS_u_s_52'',
      ''RI_ECO_liable_to_pay_GST_u_s_9_5'', ''RI_Education'', ''RI_Entertainment_Media'',
      ''RI_Finance_Legal_Insurance'', ''RI_Food_Hospitality_Tourism_Beverage'', ''RI_Government'',
      ''RI_HR_Administrative_Consulting'', ''RI_Health_Social_Welfare_Pharmaceutical'',
      ''RI_Households'', ''RI_IT_Communication_Marketing'', ''RI_Manufacturing_Maintenance'',
      ''RI_Mining_Quarrying'', ''RI_NGO'', ''RI_Other_Services'', ''RI_Real_Estate'',
      ''RI_Science_Technology'', ''RI_Transportation_Logistics'',
      ''RI_Utilities_Energy_Water_supply'', ''RI_Wholesale_Retail'']"
  by code_simp

lemma label_to_col:
  "lab \<in> set ALLOWED_INDUSTRIES \<Longrightarrow> ALLOWED_LABEL_TO_RI_COL lab = Some (make_safe_ri_column lab)"
  by (simp add: ALLOWED_LABEL_TO_RI_COL_def map_of_map_restrict)

lemma label_to_col_None:
  "lab \<notin> set ALLOWED_INDUSTRIES \<Longrightarrow> ALLOWED_LABEL_TO_RI_COL lab = None"
  by (simp add: ALLOWED_LABEL_TO_RI_COL_def map_of_map_restrict)

lemma ALLOWED_RI_COLS_map: "ALLOWED_RI_COLS = map make_safe_ri_column ALLOWED_INDUSTRIES"
  by (simp add: ALLOWED_RI_COLS_def label_to_col cong: map_cong)

lemma ALLOWED_RI_COLS_code [code]:
  "ALLOWED_RI_COLS =
     [''RI_Agriculture'', ''RI_Construction_Renovation'', ''RI_ECO_liable_to_deduct_TCS_u_s_52'',
      ''RI_ECO_liable_to_pay_GST_u_s_9_5'', ''RI_Education'', ''RI_Entertainment_Media'',
      ''RI_Finance_Legal_Insurance'', ''RI_Food_Hospitality_Tourism_Beverage'', ''RI_Government'',
      ''RI_HR_Administrative_Consulting'', ''RI_Health_Social_Welfare_Pharmaceutical'',
      ''RI_Households'', ''RI_IT_Communication_Marketing'', ''RI_Manufacturing_Maintenance'',
      ''RI_Mining_Quarrying'', ''RI_NGO'', ''RI_Other_Services'', ''RI_Real_Estate'',
      ''RI_Science_Technology'', ''RI_Transportation_Logistics'',
      ''RI_Utilities_Energy_Water_supply'', ''RI_Wholesale_Retail'']"
  by (simp only: ALLOWED_RI_COLS_map slug_catalog)

lemma distinct_ALLOWED_INDUSTRIES: "distinct ALLOWED_INDUSTRIES"
  by (simp add: ALLOWED_INDUSTRIES_def)

lemma distinct_ALLOWED_RI_COLS: "distinct ALLOWED_RI_COLS"
  by (simp add: ALLOWED_RI_COLS_code)

lemma length_ALLOWED_RI_COLS: "length ALLOWED_RI_COLS = 22"
  by (simp add: ALLOWED_RI_COLS_code)

lemma reslug_catalog:
  "map make_safe_ri_column ALLOWED_RI_COLS = map (\<lambda>c. ''RI_'' @ c) ALLOWED_RI_COLS"
  by code_simp


section \<open>The defaults of the profile extras\<close>

lemma init_ri_zero_dict_apply:
  "init_ri_zero_dict c = (if c \<in> set ALLOWED_RI_COLS then Some (Num 0) else None)"
  by (simp add: init_ri_zero_dict_def map_of_map_restrict restrict_map_def)

lemma ri_col_prefix: "c \<in> set ALLOWED_RI_COLS \<Longrightarrow> \<exists>x. c = ''RI_'' @ x"
  by (auto simp: ALLOWED_RI_COLS_map make_safe_ri_column_def Let_def)

lemma ri_col_not_base: "c \<in> set ALLOWED_RI_COLS \<Longrightarrow> c \<notin> set base_cols"
  by (auto simp: base_cols_def dest!: ri_col_prefix)

lemma default_extras_ri: "c \<in> set ALLOWED_RI_COLS \<Longrightarrow> default_extras c = Some (Num 0)"
  by (simp add: default_extras_def map_add_def init_ri_zero_dict_apply)

lemma default_extras_base:
  "c \<notin> set ALLOWED_RI_COLS \<Longrightarrow>
   default_extras c =
     [''Certified Versions'' \<mapsto> Str [],
      ''References Total'' \<mapsto> NA,
      ''Customer Retention %'' \<mapsto> NA,
      ''Largest Reference Users'' \<mapsto> NA,
      ''Average Reference Users'' \<mapsto> NA,
      ''Reference Industries'' \<mapsto> Str []] c"
  by (simp add: default_extras_def map_add_def init_ri_zero_dict_apply)


section \<open>The column identifiers (C2)\<close>

text \<open>
  C2, as the code has it. \<open>make_safe_ri_column\<close> is injective on the 22 catalog labels: no
  two labels get the same column identifier. It is not idempotent, because it puts the
  prefix \<open>RI_\<close> in front of whatever it is given: applied to the identifier of a catalog
  label it returns that identifier with one more \<open>RI_\<close> in front.
\<close>

theorem make_safe_ri_column_catalog:
  "inj_on make_safe_ri_column (set ALLOWED_INDUSTRIES) \<and>
   (\<forall>lab \<in> set ALLOWED_INDUSTRIES.
      make_safe_ri_column (make_safe_ri_column lab) = ''RI_'' @ make_safe_ri_column lab)"
proof
  have "distinct (map make_safe_ri_column ALLOWED_INDUSTRIES)"
    using distinct_ALLOWED_RI_COLS by (simp only: ALLOWED_RI_COLS_map)
  then show "inj_on make_safe_ri_column (set ALLOWED_INDUSTRIES)"
    by (simp add: distinct_map)
next
  have "map (make_safe_ri_column \<circ> make_safe_ri_column) ALLOWED_INDUSTRIES
      = map ((\<lambda>c. ''RI_'' @ c) \<circ> make_safe_ri_column) ALLOWED_INDUSTRIES"
    using reslug_catalog by (simp only: ALLOWED_RI_COLS_map map_map)
  then show "\<forall>lab \<in> set ALLOWED_INDUSTRIES.
      make_safe_ri_column (make_safe_ri_column lab) = ''RI_'' @ make_safe_ri_column lab"
    by (simp only: map_eq_conv comp_apply)
qed

text \<open>The theorem at the labels \<open>NGO\<close> and \<open>Education\<close>.\<close>

theorem make_safe_ri_column_catalog_witness:
  "make_safe_ri_column (make_safe_ri_column ''NGO'') = ''RI_'' @ make_safe_ri_column ''NGO'' \<and>
   make_safe_ri_column ''NGO'' \<noteq> make_safe_ri_column ''Education''"
proof -
  have mem: "''NGO'' \<in> set ALLOWED_INDUSTRIES" "''Education'' \<in> set ALLOWED_INDUSTRIES"
    by (simp_all add: ALLOWED_INDUSTRIES_def)
  have ne: "''NGO'' \<noteq> ''Education''" by simp
  from make_safe_ri_column_catalog mem ne show ?thesis
    by (auto dest: inj_onD)
qed

text \<open>
  Idempotence fails already at the first label: the identifier of \<open>Agriculture\<close> is
  \<open>RI_Agriculture\<close>, and the identifier of that is \<open>RI_RI_Agriculture\<close>.
\<close>

theorem make_safe_ri_column_not_idempotent:
  "make_safe_ri_column (make_safe_ri_column ''Agriculture'') \<noteq> make_safe_ri_column ''Agriculture''"
  by code_simp


section \<open>No profile address (C10)\<close>

text \<open>
  C10. Called with no profile address (\<open>None\<close>) or with the empty one,
  \<open>fetch_profile_extras\<close> returns the defaults and leaves the session as it was, so no
  request is made. The defaults are: the empty string for the certified versions and for
  the reference industries, a missing value for each of the four numeric extras, and 0 in
  each of the 22 industry columns.
\<close>

theorem fetch_profile_extras_no_url:
  "fetch_profile_extras get_text s None = (Inr default_extras, s) \<and>
   fetch_profile_extras get_text s (Some []) = (Inr default_extras, s) \<and>
   default_extras ''Certified Versions'' = Some (Str []) \<and>
   default_extras ''References Total'' = Some NA \<and>
   default_extras ''Customer Retention %'' = Some NA \<and>
   default_extras ''Largest Reference Users'' = Some NA \<and>
   default_extras ''Average Reference Users'' = Some NA \<and>
   default_extras ''Reference Industries'' = Some (Str []) \<and>
   (\<forall>col \<in> set ALLOWED_RI_COLS. default_extras col = Some (Num 0))"
proof -
  have base: "\<And>c. c \<in> set base_cols \<Longrightarrow> c \<notin> set ALLOWED_RI_COLS"
    using ri_col_not_base by blast
  have "default_extras ''Certified Versions'' = Some (Str [])"
    by (subst default_extras_base) (simp_all add: base base_cols_def)
  moreover have "default_extras ''References Total'' = Some NA"
    by (subst default_extras_base) (simp_all add: base base_cols_def)
  moreover have "default_extras ''Customer Retention %'' = Some NA"
    by (subst default_extras_base) (simp_all add: base base_cols_def)
  moreover have "default_extras ''Largest Reference Users'' = Some NA"
    by (subst default_extras_base) (simp_all add: base base_cols_def)
  moreover have "default_extras ''Average Reference Users'' = Some NA"
    by (subst default_extras_base) (simp_all add: base base_cols_def)
  moreover have "default_extras ''Reference Industries'' = Some (Str [])"
    by (subst default_extras_base) (simp_all add: base base_cols_def)
  moreover have "fetch_profile_extras get_text s None = (Inr default_extras, s)"
    "fetch_profile_extras get_text s (Some []) = (Inr default_extras, s)"
    by (simp_all add: fetch_profile_extras_def)
  ultimately show ?thesis using default_extras_ri by blast
qed

text \<open>
  The theorem on a session whose server would answer with a page that names an industry:
  with the empty address the column of that industry is 0 and no request is recorded.
\<close>

theorem fetch_profile_extras_no_url_witness:
  "(\<exists>extras. fst (fetch_profile_extras (\<lambda>t. t)
          \<lparr>server = (\<lambda>u. Response 200 ''References - 3 2 NGO''), requests = []\<rparr> (Some [])) = Inr extras \<and>
      extras ''RI_NGO'' = Some (Num 0)) \<and>
   requests (snd (fetch_profile_extras (\<lambda>t. t)
          \<lparr>server = (\<lambda>u. Response 200 ''References - 3 2 NGO''), requests = []\<rparr> (Some []))) = []"
proof -
  have "''RI_NGO'' \<in> set ALLOWED_RI_COLS" by (simp add: ALLOWED_RI_COLS_code)
  with fetch_profile_extras_no_url
    [of "\<lambda>t. t" "\<lparr>server = (\<lambda>u. Response 200 ''References - 3 2 NGO''), requests = []\<rparr>"]
  show ?thesis by simp
qed


section \<open>The list-row parser on the example of the specification (C6)\<close>

text \<open>
  C6. On the text \<open>Acme Corp Gold 12 References 5 Certified Experts 40 % Springfield
  Average Project: $5k\<close> the parser returns the draft with the name \<open>Acme Corp\<close>, the tier
  \<open>Gold\<close>, the location \<open>Springfield\<close>, 12 references and 5 certified experts (the two
  counts as the digits captured, which is how the parser stores them).
\<close>

theorem parse_partner_text_example:
  "parse_partner_text ''Acme Corp Gold 12 References 5 Certified Experts 40 % Springfield Average Project: $5k'' =
     Some [''Partner Name'' \<mapsto> Str ''Acme Corp'',
           ''Tier'' \<mapsto> Str ''Gold'',
           ''Location'' \<mapsto> Str ''Springfield'',
           ''References'' \<mapsto> Str ''12'',
           ''Certified Experts'' \<mapsto> Str ''5'']"
proof -
  let ?t = "''Acme Corp Gold 12 References 5 Certified Experts 40 % Springfield Average Project: $5k''"
  have norm: "normalize_text ?t = ?t" by code_simp
  have tier: "map_option (\<lambda>m. (group m 1, strip isspace (take (m_start m) ?t))) (re_search False TIER_RE ?t)
      = Some (''Gold'', ''Acme Corp'')"
    by code_simp
  then obtain m where m: "re_search False TIER_RE ?t = Some m" "group m 1 = ''Gold''"
      "strip isspace (take (m_start m) ?t) = ''Acme Corp''"
    by auto
  have low: "lower ''Acme Corp'' \<noteq> ''find best match''" by code_simp
  have loc: "location_of ?t = ''Springfield''" by code_simp
  have refs: "refs_of ?t = ''12''" by code_simp
  have exps: "experts_of ?t = ''5''" by code_simp
  from m(2) have tier': "group m (Suc 0) = ''Gold''" by simp
  show ?thesis
    by (simp add: parse_partner_text_def norm m(1,3) tier' low loc refs exps)
qed


section \<open>The list-row parser (C3, C7)\<close>

text \<open>
  The name and the tier of a normalized text: what stands before the first tier keyword,
  stripped, and the keyword itself.
\<close>

definition pre_tier :: "string \<Rightarrow> string" where
  "pre_tier text =
     (case re_search False TIER_RE text of
        None \<Rightarrow> []
      | Some m_tier \<Rightarrow> strip isspace (take (m_start m_tier) text))"

definition tier_of :: "string \<Rightarrow> string" where
  "tier_of text = (case re_search False TIER_RE text of None \<Rightarrow> [] | Some m_tier \<Rightarrow> group m_tier 1)"

lemma parse_partner_text_Some:
  assumes "parse_partner_text raw = Some d"
  shows "d = [''Partner Name'' \<mapsto> Str (pre_tier (normalize_text raw)),
              ''Tier'' \<mapsto> Str (tier_of (normalize_text raw)),
              ''Location'' \<mapsto> Str (location_of (normalize_text raw)),
              ''References'' \<mapsto> Str (refs_of (normalize_text raw)),
              ''Certified Experts'' \<mapsto> Str (experts_of (normalize_text raw))]"
  using assms
  by (auto simp: parse_partner_text_def pre_tier_def tier_of_def Let_def
           split: option.splits if_splits)

lemma no_location_example:
  "re_search False LOC_RE (normalize_text ''Acme Gold 12 References'') = None"
proof -
  have "Option.is_none (re_search False LOC_RE (normalize_text ''Acme Gold 12 References''))"
    by code_simp
  then show ?thesis by (simp add: Option.is_none_def)
qed

lemma parse_example_12:
  "\<exists>d. parse_partner_text ''Acme Gold 12 References'' = Some d \<and> d ''Location'' = Some (Str ''N/A'')"
proof -
  have "map_option (\<lambda>d. d ''Location'') (parse_partner_text ''Acme Gold 12 References'')
      = Some (Some (Str ''N/A''))"
    by code_simp
  then show ?thesis by auto
qed

text \<open>
  C3, as the code has it. When \<open>LOC_RE\<close> (a percent sign, white space, the location,
  white space, \<open>Average Project:\<close>) matches nowhere in the normalized text, the Location
  of the draft returned is the sentinel, and the sentinel of the code is the string
  \<open>N/A\<close>.
\<close>

theorem parse_partner_text_no_location:
  assumes "re_search False LOC_RE (normalize_text raw) = None"
    and "parse_partner_text raw = Some d"
  shows "d ''Location'' = Some (Str ''N/A'')"
proof -
  from assms(1) have "location_of (normalize_text raw) = ''N/A''"
    by (simp add: location_of_def)
  with parse_partner_text_Some [OF assms(2)] show ?thesis by simp
qed

text \<open>The theorem on \<open>Acme Gold 12 References\<close>, a row with no location segment.\<close>

theorem parse_partner_text_no_location_witness:
  "re_search False LOC_RE (normalize_text ''Acme Gold 12 References'') = None \<and>
   (\<exists>d. parse_partner_text ''Acme Gold 12 References'' = Some d \<and> d ''Location'' = Some (Str ''N/A''))"
proof -
  from parse_example_12 obtain d where d: "parse_partner_text ''Acme Gold 12 References'' = Some d"
    by blast
  from parse_partner_text_no_location [OF no_location_example d] d no_location_example
  show ?thesis by blast
qed

text \<open>
  The same row refutes the claim as the specification words it, with the string
  \<open>unknown\<close> for the sentinel.
\<close>

theorem parse_partner_text_location_not_unknown:
  "\<not> (\<forall>raw d. re_search False LOC_RE (normalize_text raw) = None \<longrightarrow>
          parse_partner_text raw = Some d \<longrightarrow> d ''Location'' = Some (Str ''unknown''))"
proof
  assume a: "\<forall>raw d. re_search False LOC_RE (normalize_text raw) = None \<longrightarrow>
          parse_partner_text raw = Some d \<longrightarrow> d ''Location'' = Some (Str ''unknown'')"
  from parse_example_12 obtain d where d: "parse_partner_text ''Acme Gold 12 References'' = Some d"
      "d ''Location'' = Some (Str ''N/A'')"
    by blast
  from a no_location_example d(1) have "d ''Location'' = Some (Str ''unknown'')" by blast
  with d(2) show False by simp
qed

text \<open>
  C7, as the code has it. The parser returns nothing exactly in these cases: no tier
  keyword matches in the normalized text; the text before the keyword is empty once
  stripped, or is \<open>find best match\<close> in lower case; or the location is the sentinel
  while the text captured for the references and the text captured for the experts are
  both the string \<open>0\<close> (no count found, or a count written \<open>0\<close>). In every other case it
  returns a draft. The last test compares strings, not numbers.
\<close>

theorem parse_partner_text_None_iff:
  "parse_partner_text raw = None \<longleftrightarrow>
     re_search False TIER_RE (normalize_text raw) = None \<or>
     pre_tier (normalize_text raw) = [] \<or>
     lower (pre_tier (normalize_text raw)) = ''find best match'' \<or>
     (location_of (normalize_text raw) = ''N/A'' \<and> refs_of (normalize_text raw) = ''0'' \<and>
      experts_of (normalize_text raw) = ''0'')"
  by (auto simp: parse_partner_text_def pre_tier_def Let_def split: option.splits if_splits)

text \<open>One text for each of the four ways to be refused, and one that is accepted.\<close>

theorem parse_partner_text_None_iff_witness:
  "parse_partner_text ''Golden Oldies 5 References'' = None \<and>
   parse_partner_text ''Gold 5 References'' = None \<and>
   parse_partner_text ''find BEST Match Gold 5 References'' = None \<and>
   parse_partner_text ''Acme Gold 0 References'' = None \<and>
   parse_partner_text ''Acme Gold 5 References'' \<noteq> None"
proof -
  have 1: "Option.is_none (re_search False TIER_RE (normalize_text ''Golden Oldies 5 References''))"
    by code_simp
  have 2: "pre_tier (normalize_text ''Gold 5 References'') = []" by code_simp
  have 3: "lower (pre_tier (normalize_text ''find BEST Match Gold 5 References'')) = ''find best match''"
    by code_simp
  have 4: "location_of (normalize_text ''Acme Gold 0 References'') = ''N/A''"
    "refs_of (normalize_text ''Acme Gold 0 References'') = ''0''"
    "experts_of (normalize_text ''Acme Gold 0 References'') = ''0''"
    by code_simp+
  have 5: "\<not> Option.is_none (re_search False TIER_RE (normalize_text ''Acme Gold 5 References''))"
    "pre_tier (normalize_text ''Acme Gold 5 References'') \<noteq> []"
    "lower (pre_tier (normalize_text ''Acme Gold 5 References'')) \<noteq> ''find best match''"
    "refs_of (normalize_text ''Acme Gold 5 References'') \<noteq> ''0''"
    by code_simp+
  from 1 have "parse_partner_text ''Golden Oldies 5 References'' = None"
    by (simp add: parse_partner_text_None_iff Option.is_none_def)
  moreover from 2 have "parse_partner_text ''Gold 5 References'' = None"
    by (simp add: parse_partner_text_None_iff)
  moreover from 3 have "parse_partner_text ''find BEST Match Gold 5 References'' = None"
    by (simp add: parse_partner_text_None_iff)
  moreover from 4 have "parse_partner_text ''Acme Gold 0 References'' = None"
    by (simp add: parse_partner_text_None_iff)
  moreover from 5 have "parse_partner_text ''Acme Gold 5 References'' \<noteq> None"
    by (simp add: parse_partner_text_None_iff Option.is_none_def)
  ultimately show ?thesis by blast
qed

text \<open>
  The claim as the specification words it fails on \<open>Acme Gold 00 References\<close>: the
  location is the sentinel and both counts are the number 0, yet the parser returns a
  draft, whose References field is \<open>00\<close>.
\<close>

theorem parse_partner_text_keeps_zero_digits:
  "location_of (normalize_text ''Acme Gold 00 References'') = ''N/A'' \<and>
   py_int (refs_of (normalize_text ''Acme Gold 00 References'')) = Inr 0 \<and>
   py_int (experts_of (normalize_text ''Acme Gold 00 References'')) = Inr 0 \<and>
   (\<exists>d. parse_partner_text ''Acme Gold 00 References'' = Some d \<and> d ''References'' = Some (Str ''00''))"
proof -
  have "location_of (normalize_text ''Acme Gold 00 References'') = ''N/A''"
    "py_int (refs_of (normalize_text ''Acme Gold 00 References'')) = Inr 0"
    "py_int (experts_of (normalize_text ''Acme Gold 00 References'')) = Inr 0"
    by code_simp+
  moreover have "map_option (\<lambda>d. d ''References'') (parse_partner_text ''Acme Gold 00 References'')
      = Some (Some (Str ''00''))"
    by code_simp
  then have "\<exists>d. parse_partner_text ''Acme Gold 00 References'' = Some d \<and> d ''References'' = Some (Str ''00'')"
    by auto
  ultimately show ?thesis by blast
qed


section \<open>Exceptions\<close>

lemma and_then_Inr: "and_then (Inr x) f = f x"
  by (simp add: and_then_def)

lemma and_then_Inl: "and_then (Inl e) f = Inl e"
  by (simp add: and_then_def)

lemma and_then_assoc: "and_then (and_then r f) g = and_then r (\<lambda>x. and_then (f x) g)"
  by (cases r) (simp_all add: and_then_def)

lemma and_then_eq_Inr: "and_then r f = Inr y \<longleftrightarrow> (\<exists>x. r = Inr x \<and> f x = Inr y)"
  by (cases r) (simp_all add: and_then_def)

lemma error_ValueError: "e = ValueError"
  by (cases e) simp

lemma py_int_Inr: "py_int s = Inr n \<Longrightarrow> n = int_of_digits s"
  by (auto simp: py_int_def split: if_splits)

lemma py_int_raises: "int_max_str_digits < int (length s) \<Longrightarrow> py_int s = Inl ValueError"
  by (simp add: py_int_def)

lemma py_str_Inr: "py_str n = Inr s \<Longrightarrow> s = decimal n"
  by (auto simp: py_str_def split: if_splits)

lemma try_map_Inr:
  assumes "try_map f xs = Inr ys" and "\<And>x y. x \<in> set xs \<Longrightarrow> f x = Inr y \<Longrightarrow> y = g x"
  shows "ys = map g xs"
  using assms
proof (induction xs arbitrary: ys)
  case Nil
  then show ?case by simp
next
  case (Cons x xs)
  from Cons.prems(1) obtain y where y: "f x = Inr y"
    by (cases "f x") simp_all
  with Cons.prems(1) obtain ys' where ys': "try_map f xs = Inr ys'" and ys: "ys = y # ys'"
    by (cases "try_map f xs") auto
  from Cons.prems(2) [of x y] y have "y = g x" by simp
  moreover from Cons.IH [OF ys'] Cons.prems(2) have "ys' = map g xs" by simp
  ultimately show ?case using ys by simp
qed


section \<open>Ordered dictionaries\<close>

lemma map_of_dict_set: "map_of (dict_set d k v) = (map_of d)(k \<mapsto> v)"
  by (induction d k v rule: dict_set.induct) auto

lemma keys_dict_set:
  "map fst (dict_set d k v) = (if k \<in> set (map fst d) then map fst d else map fst d @ [k])"
  by (induction d k v rule: dict_set.induct) auto

lemma map_of_None_keys: "map_of d k = None \<longleftrightarrow> k \<notin> set (map fst d)"
  by (simp add: map_of_eq_None_iff)

section \<open>First-seen order and greatest count\<close>

text \<open>
  The words of the specification: the distinct labels in the order in which they are first
  seen, and for a label the greatest of the counts found with it.
\<close>

fun first_seen :: "'a list \<Rightarrow> 'a list" where
  "first_seen [] = []"
| "first_seen (x # xs) = x # filter (\<lambda>y. y \<noteq> x) (first_seen xs)"

definition counts_of :: "(string \<times> string) list \<Rightarrow> string \<Rightarrow> int list" where
  "counts_of found lab = map (\<lambda>p. int_of_digits (fst p)) (filter (\<lambda>p. snd p = lab) found)"

definition max_count :: "(string \<times> string) list \<Rightarrow> string \<Rightarrow> int" where
  "max_count found lab = Max (set (counts_of found lab))"

lemma first_seen_filter: "first_seen (filter P xs) = filter P (first_seen xs)"
proof (induction xs)
  case Nil
  show ?case by simp
next
  case (Cons x xs)
  show ?case
  proof (cases "P x")
    case True
    have "filter (\<lambda>y. y \<noteq> x) (filter P (first_seen xs)) = filter P (filter (\<lambda>y. y \<noteq> x) (first_seen xs))"
      by (simp add: conj_commute)
    with Cons True show ?thesis by simp
  next
    case False
    then have "filter P (filter (\<lambda>y. y \<noteq> x) (first_seen xs)) = filter P (first_seen xs)"
      by (auto intro: filter_cong)
    with Cons False show ?thesis by simp
  qed
qed

lemma set_first_seen: "set (first_seen xs) = set xs"
  by (induction xs) auto

lemma distinct_first_seen: "distinct (first_seen xs)"
  by (induction xs) (auto simp: set_first_seen)

lemma filter_notin_snoc:
  "filter (\<lambda>l. l \<notin> set (order @ [lab])) xs = filter (\<lambda>y. y \<noteq> lab) (filter (\<lambda>l. l \<notin> set order) xs)"
  by (induction xs) auto

text \<open>
  A step of the loop that does not raise has read the number its text writes.
\<close>

lemma dedup_loop_step:
  assumes "dedup_loop ((n_str, lab) # found) dedup order = Inr res"
  shows "py_int n_str = Inr (int_of_digits n_str)"
    and "map_of dedup lab = None \<Longrightarrow>
         dedup_loop found (dict_set dedup lab (int_of_digits n_str)) (order @ [lab]) = Inr res"
    and "map_of dedup lab = Some old \<Longrightarrow>
         dedup_loop found (dict_set dedup lab (max old (int_of_digits n_str))) order = Inr res"
proof -
  from assms obtain n where n: "py_int n_str = Inr n"
    by (cases "py_int n_str") simp_all
  then have "n = int_of_digits n_str" by (rule py_int_Inr)
  with n show pi: "py_int n_str = Inr (int_of_digits n_str)" by simp
  from assms pi show "map_of dedup lab = None \<Longrightarrow>
         dedup_loop found (dict_set dedup lab (int_of_digits n_str)) (order @ [lab]) = Inr res"
    by simp
  from assms pi show "map_of dedup lab = Some old \<Longrightarrow>
         dedup_loop found (dict_set dedup lab (max old (int_of_digits n_str))) order = Inr res"
    by simp
qed

lemma dedup_loop_order:
  "dedup_loop found dedup order = Inr (dedup', order') \<Longrightarrow> order = map fst dedup \<Longrightarrow>
   order' = map fst dedup' \<and>
   order' = order @ first_seen (filter (\<lambda>l. l \<notin> set order) (map snd found))"
proof (induction found arbitrary: dedup order)
  case Nil
  then show ?case by auto
next
  case (Cons p found)
  obtain n_str lab where p: "p = (n_str, lab)" by (cases p)
  note step = dedup_loop_step [OF Cons.prems(1) [unfolded p]]
  let ?n = "int_of_digits n_str"
  show ?case
  proof (cases "map_of dedup lab")
    case None
    then have notin: "lab \<notin> set order" using Cons.prems(2) by (simp add: map_of_None_keys)
    note run = step(2) [OF None]
    have keys: "order @ [lab] = map fst (dict_set dedup lab ?n)"
      using notin Cons.prems(2) by (simp add: keys_dict_set)
    from Cons.IH [OF run keys] have
      a: "order' = map fst dedup'" and
      b: "order' = (order @ [lab]) @ first_seen (filter (\<lambda>l. l \<notin> set (order @ [lab])) (map snd found))"
      by blast+
    have "first_seen (filter (\<lambda>l. l \<notin> set order) (map snd ((n_str, lab) # found)))
        = lab # filter (\<lambda>y. y \<noteq> lab) (first_seen (filter (\<lambda>l. l \<notin> set order) (map snd found)))"
      using notin by simp
    also have "\<dots> = lab # first_seen (filter (\<lambda>l. l \<notin> set (order @ [lab])) (map snd found))"
      by (simp only: filter_notin_snoc first_seen_filter)
    finally have "order' = order @ first_seen (filter (\<lambda>l. l \<notin> set order) (map snd ((n_str, lab) # found)))"
      using b by simp
    with a show ?thesis unfolding p by blast
  next
    case (Some old)
    then have isin: "lab \<in> set order" using Cons.prems(2)
      by (metis map_of_None_keys option.distinct(1))
    note run = step(3) [OF Some]
    have keys: "order = map fst (dict_set dedup lab (max old ?n))"
      using isin Cons.prems(2) by (simp add: keys_dict_set)
    from Cons.IH [OF run keys] have
      a: "order' = map fst dedup'" and
      b: "order' = order @ first_seen (filter (\<lambda>l. l \<notin> set order) (map snd found))"
      by blast+
    have "filter (\<lambda>l. l \<notin> set order) (map snd ((n_str, lab) # found))
        = filter (\<lambda>l. l \<notin> set order) (map snd found)"
      using isin by simp
    with a b show ?thesis unfolding p by (simp only:)
  qed
qed

lemma counts_of_Cons:
  "counts_of ((n_str, lab') # found) lab =
     (if lab' = lab then int_of_digits n_str # counts_of found lab else counts_of found lab)"
  by (simp add: counts_of_def)

lemma Max_insert_max:
  assumes "finite S"
  shows "Max (insert (max a b) S) = Max (insert a (insert b S))"
proof (cases "S = {}")
  case True
  then show ?thesis by (simp add: max.commute)
next
  case False
  with assms show ?thesis by (simp add: max.assoc)
qed

lemma dedup_loop_value:
  "dedup_loop found dedup order = Inr (dedup', order') \<Longrightarrow>
   map_of dedup' lab =
     (case map_of dedup lab of
        None \<Rightarrow> if counts_of found lab = [] then None else Some (Max (set (counts_of found lab)))
      | Some old \<Rightarrow> Some (Max (set (old # counts_of found lab))))"
proof (induction found arbitrary: dedup order)
  case Nil
  then show ?case by (auto simp: counts_of_def split: option.splits)
next
  case (Cons p found)
  obtain n_str lab' where p: "p = (n_str, lab')" by (cases p)
  note step = dedup_loop_step [OF Cons.prems(1) [unfolded p]]
  let ?n = "int_of_digits n_str"
  show ?case unfolding p
  proof (cases "map_of dedup lab'")
    case None
    note ih = Cons.IH [OF step(2) [OF None]]
    show "map_of dedup' lab =
     (case map_of dedup lab of
        None \<Rightarrow> if counts_of ((n_str, lab') # found) lab = [] then None
                else Some (Max (set (counts_of ((n_str, lab') # found) lab)))
      | Some old \<Rightarrow> Some (Max (set (old # counts_of ((n_str, lab') # found) lab))))"
    proof (cases "lab' = lab")
      case True
      with ih have "map_of dedup' lab = Some (Max (set (?n # counts_of found lab)))"
        by (simp add: map_of_dict_set)
      with True None show ?thesis by (simp add: counts_of_Cons)
    next
      case False
      then have cf: "counts_of ((n_str, lab') # found) lab = counts_of found lab"
        by (simp add: counts_of_Cons)
      from False ih have "map_of dedup' lab =
        (case map_of dedup lab of
           None \<Rightarrow> if counts_of found lab = [] then None else Some (Max (set (counts_of found lab)))
         | Some old \<Rightarrow> Some (Max (set (old # counts_of found lab))))"
        by (simp add: map_of_dict_set)
      then show ?thesis unfolding cf .
    qed
  next
    case (Some old)
    note ih = Cons.IH [OF step(3) [OF Some]]
    show "map_of dedup' lab =
     (case map_of dedup lab of
        None \<Rightarrow> if counts_of ((n_str, lab') # found) lab = [] then None
                else Some (Max (set (counts_of ((n_str, lab') # found) lab)))
      | Some old \<Rightarrow> Some (Max (set (old # counts_of ((n_str, lab') # found) lab))))"
    proof (cases "lab' = lab")
      case True
      with ih have "map_of dedup' lab = Some (Max (set (max old ?n # counts_of found lab)))"
        by (simp add: map_of_dict_set)
      also have "Max (set (max old ?n # counts_of found lab)) = Max (set (old # ?n # counts_of found lab))"
        using Max_insert_max [of "set (counts_of found lab)" old ?n] by simp
      finally show ?thesis using True Some by (simp add: counts_of_Cons)
    next
      case False
      then have cf: "counts_of ((n_str, lab') # found) lab = counts_of found lab"
        by (simp add: counts_of_Cons)
      from False ih have "map_of dedup' lab =
        (case map_of dedup lab of
           None \<Rightarrow> if counts_of found lab = [] then None else Some (Max (set (counts_of found lab)))
         | Some old \<Rightarrow> Some (Max (set (old # counts_of found lab))))"
        by (simp add: map_of_dict_set)
      then show ?thesis unfolding cf .
    qed
  qed
qed

lemma dedup_loop_result:
  assumes "dedup_loop found [] [] = Inr (dedup, order)"
  shows "order = first_seen (map snd found)"
    and "order = map fst dedup"
    and "lab \<in> set order \<Longrightarrow> dict_at dedup lab = max_count found lab"
    and "distinct (map fst dedup)"
    and "(lab, cnt) \<in> set dedup \<Longrightarrow> cnt = max_count found lab \<and> lab \<in> snd ` set found"
proof -
  have e: "([]::string list) = map fst ([]::(string \<times> int) list)" by simp
  note r = dedup_loop_order [OF assms e]
  from r show k: "order = map fst dedup" by (rule conjunct1)
  from r have "order = [] @ first_seen (filter (\<lambda>l. l \<notin> set []) (map snd found))"
    by (rule conjunct2)
  then show o: "order = first_seen (map snd found)" by simp
  from o k show d: "distinct (map fst dedup)" by (metis distinct_first_seen)
  have v: "map_of dedup l = (if counts_of found l = [] then None else Some (max_count found l))" for l
    using dedup_loop_value [OF assms, of l] by (simp add: max_count_def)
  have nonempty: "counts_of found l \<noteq> [] \<longleftrightarrow> l \<in> snd ` set found" for l
    by (auto simp: counts_of_def filter_empty_conv)
  show "dict_at dedup lab = max_count found lab" if "lab \<in> set order"
  proof -
    from that o have "lab \<in> snd ` set found" by (simp add: set_first_seen)
    with v [of lab] nonempty [of lab] show ?thesis by (simp add: dict_at_def)
  qed
  show "cnt = max_count found lab \<and> lab \<in> snd ` set found" if "(lab, cnt) \<in> set dedup"
  proof -
    from that d have "map_of dedup lab = Some cnt" by simp
    with v [of lab] nonempty [of lab] show ?thesis by (auto split: if_splits)
  qed
qed

section \<open>Filling the fixed columns\<close>

lemma label_col_in_cols:
  assumes "ALLOWED_LABEL_TO_RI_COL lab = Some col"
  shows "lab \<in> set ALLOWED_INDUSTRIES" and "col = make_safe_ri_column lab"
    and "col \<in> set ALLOWED_RI_COLS" and "col \<noteq> []"
proof -
  from assms show mem: "lab \<in> set ALLOWED_INDUSTRIES"
    using label_to_col_None by (cases "lab \<in> set ALLOWED_INDUSTRIES") auto
  with assms show c: "col = make_safe_ri_column lab" by (simp add: label_to_col)
  with mem show "col \<in> set ALLOWED_RI_COLS" by (simp add: ALLOWED_RI_COLS_map)
  from c show "col \<noteq> []" by (simp add: make_safe_ri_column_def Let_def)
qed

lemma slug_inj:
  assumes "lab \<in> set ALLOWED_INDUSTRIES" and "lab' \<in> set ALLOWED_INDUSTRIES"
    and "make_safe_ri_column lab = make_safe_ri_column lab'"
  shows "lab = lab'"
proof -
  have "distinct (map make_safe_ri_column ALLOWED_INDUSTRIES)"
    using distinct_ALLOWED_RI_COLS by (simp only: ALLOWED_RI_COLS_map)
  then have "inj_on make_safe_ri_column (set ALLOWED_INDUSTRIES)" by (simp add: distinct_map)
  with assms show ?thesis by (auto dest: inj_onD)
qed

lemma fill_ri_Cons:
  "fill_ri ((lab, cnt) # items) extras =
     (case ALLOWED_LABEL_TO_RI_COL lab of
        None \<Rightarrow> fill_ri items extras
      | Some col \<Rightarrow> fill_ri items (extras(col \<mapsto> Num cnt)))"
  by (auto split: option.splits dest: label_col_in_cols(4))

lemma fill_ri_other: "c \<notin> set ALLOWED_RI_COLS \<Longrightarrow> fill_ri items extras c = extras c"
proof (induction items arbitrary: extras)
  case Nil
  show ?case by simp
next
  case (Cons p items)
  obtain lab cnt where p: "p = (lab, cnt)" by (cases p)
  show ?case
  proof (cases "ALLOWED_LABEL_TO_RI_COL lab")
    case None
    have "fill_ri items extras c = extras c" using Cons.prems by (rule Cons.IH)
    with None p show ?thesis by (simp only: fill_ri_Cons option.case)
  next
    case (Some col)
    from label_col_in_cols(3) [OF Some] Cons.prems have ne: "c \<noteq> col" by blast
    have "fill_ri items (extras(col \<mapsto> Num cnt)) c = (extras(col \<mapsto> Num cnt)) c"
      using Cons.prems by (rule Cons.IH)
    with ne have "fill_ri items (extras(col \<mapsto> Num cnt)) c = extras c" by simp
    with Some p show ?thesis by (simp only: fill_ri_Cons option.case)
  qed
qed

lemma fill_ri_dom: "set ALLOWED_RI_COLS \<subseteq> dom extras \<Longrightarrow> dom (fill_ri items extras) = dom extras"
proof (induction items arbitrary: extras)
  case Nil
  show ?case by simp
next
  case (Cons p items)
  obtain lab cnt where p: "p = (lab, cnt)" by (cases p)
  show ?case
  proof (cases "ALLOWED_LABEL_TO_RI_COL lab")
    case None
    have "dom (fill_ri items extras) = dom extras" using Cons.prems by (rule Cons.IH)
    with None p show ?thesis by (simp only: fill_ri_Cons option.case)
  next
    case (Some col)
    from label_col_in_cols(3) [OF Some] Cons.prems have d: "dom (extras(col \<mapsto> Num cnt)) = dom extras"
      by auto
    with Cons.prems have sub: "set ALLOWED_RI_COLS \<subseteq> dom (extras(col \<mapsto> Num cnt))" by simp
    have "dom (fill_ri items (extras(col \<mapsto> Num cnt))) = dom (extras(col \<mapsto> Num cnt))"
      using sub by (rule Cons.IH)
    with d have "dom (fill_ri items (extras(col \<mapsto> Num cnt))) = dom extras" by simp
    with Some p show ?thesis by (simp only: fill_ri_Cons option.case)
  qed
qed

lemma fill_ri_unmatched:
  "lab \<in> set ALLOWED_INDUSTRIES \<Longrightarrow> lab \<notin> fst ` set items \<Longrightarrow>
   fill_ri items extras (make_safe_ri_column lab) = extras (make_safe_ri_column lab)"
proof (induction items arbitrary: extras)
  case Nil
  show ?case by simp
next
  case (Cons p items)
  obtain lab' cnt where p: "p = (lab', cnt)" by (cases p)
  with Cons.prems have ne: "lab' \<noteq> lab" and rest: "lab \<notin> fst ` set items" by auto
  show ?case
  proof (cases "ALLOWED_LABEL_TO_RI_COL lab'")
    case None
    have "fill_ri items extras (make_safe_ri_column lab) = extras (make_safe_ri_column lab)"
      using Cons.prems(1) rest by (rule Cons.IH)
    with None p show ?thesis by (simp only: fill_ri_Cons option.case)
  next
    case (Some col)
    note col = label_col_in_cols(1,2) [OF Some]
    with ne Cons.prems(1) have cne: "col \<noteq> make_safe_ri_column lab" using slug_inj by blast
    have "fill_ri items (extras(col \<mapsto> Num cnt)) (make_safe_ri_column lab)
        = (extras(col \<mapsto> Num cnt)) (make_safe_ri_column lab)"
      using Cons.prems(1) rest by (rule Cons.IH)
    with cne have "fill_ri items (extras(col \<mapsto> Num cnt)) (make_safe_ri_column lab)
        = extras (make_safe_ri_column lab)" by simp
    with Some p show ?thesis by (simp only: fill_ri_Cons option.case)
  qed
qed

lemma fill_ri_matched:
  "distinct (map fst items) \<Longrightarrow> (lab, cnt) \<in> set items \<Longrightarrow> lab \<in> set ALLOWED_INDUSTRIES \<Longrightarrow>
   fill_ri items extras (make_safe_ri_column lab) = Some (Num cnt)"
proof (induction items arbitrary: extras)
  case Nil
  then show ?case by simp
next
  case (Cons p items)
  obtain lab' cnt' where p: "p = (lab', cnt')" by (cases p)
  show ?case
  proof (cases "(lab, cnt) = (lab', cnt')")
    case True
    with Cons.prems(1) p have notin: "lab \<notin> fst ` set items" by auto
    from True Cons.prems(3) have col: "ALLOWED_LABEL_TO_RI_COL lab' = Some (make_safe_ri_column lab)"
      by (simp add: label_to_col)
    have "fill_ri items (extras(make_safe_ri_column lab \<mapsto> Num cnt)) (make_safe_ri_column lab)
        = (extras(make_safe_ri_column lab \<mapsto> Num cnt)) (make_safe_ri_column lab)"
      using Cons.prems(3) notin by (rule fill_ri_unmatched)
    then have "fill_ri items (extras(make_safe_ri_column lab \<mapsto> Num cnt)) (make_safe_ri_column lab)
        = Some (Num cnt)" by simp
    with col True p show ?thesis by (simp only: fill_ri_Cons option.case prod.inject)
  next
    case False
    with Cons.prems p have inrest: "(lab, cnt) \<in> set items" and d: "distinct (map fst items)" by auto
    show ?thesis
    proof (cases "ALLOWED_LABEL_TO_RI_COL lab'")
      case None
      have "fill_ri items extras (make_safe_ri_column lab) = Some (Num cnt)"
        using d inrest Cons.prems(3) by (rule Cons.IH)
      with None p show ?thesis by (simp only: fill_ri_Cons option.case)
    next
      case (Some col)
      have "fill_ri items (extras(col \<mapsto> Num cnt')) (make_safe_ri_column lab) = Some (Num cnt)"
        using d inrest Cons.prems(3) by (rule Cons.IH)
      with Some p show ?thesis by (simp only: fill_ri_Cons option.case)
    qed
  qed
qed



section \<open>The profile extractor\<close>

text \<open>The extras as they stand before the block of industries is read.\<close>

definition base_extras :: "string \<Rightarrow> error + row" where
  "base_extras norm =
     (let extras = default_extras;
          cert_pairs = re_findall2 True CERT_RE norm
      in
      and_then (if cert_pairs \<noteq> []
                then and_then (certified_versions cert_pairs)
                       (\<lambda>v. Inr (extras(''Certified Versions'' \<mapsto> Str v)))
                else Inr extras) (\<lambda>extras.
      let m_total = re_search True TOTAL_RE norm in
      and_then (case m_total of
                  Some m \<Rightarrow> and_then (py_int (group m 1))
                              (\<lambda>n. Inr (extras(''References Total'' \<mapsto> Num n)))
                | None \<Rightarrow> Inr extras) (\<lambda>extras.
      and_then (case re_search True RETENTION_RE norm of
                  Some m_ret \<Rightarrow> and_then (py_int (group m_ret 1))
                                  (\<lambda>n. Inr (extras(''Customer Retention %'' \<mapsto> Num n)))
                | None \<Rightarrow> Inr extras) (\<lambda>extras.
      and_then (case re_search True LARGEST_RE norm of
                  Some m_largest \<Rightarrow> and_then (py_int (group m_largest 1))
                                      (\<lambda>n. Inr (extras(''Largest Reference Users'' \<mapsto> Num n)))
                | None \<Rightarrow> Inr extras) (\<lambda>extras.
      case re_search True AVERAGE_RE norm of
        Some m_avg \<Rightarrow> and_then (py_int (group m_avg 1))
                        (\<lambda>n. Inr (extras(''Average Reference Users'' \<mapsto> Num n)))
      | None \<Rightarrow> Inr extras)))))"

lemma parse_profile_alt:
  "parse_profile norm =
     and_then (base_extras norm) (\<lambda>extras.
       case re_search True TOTAL_RE norm of
         None \<Rightarrow> Inr extras
       | Some m \<Rightarrow>
           if found_industries norm m = [] then Inr extras
           else
             and_then (dedup_loop (found_industries norm m) [] []) (\<lambda>(dedup, order).
             and_then (try_map (\<lambda>lab. and_then (py_str (dict_at dedup lab))
                                        (\<lambda>v. Inr (lab @ '' '' @ v))) order) (\<lambda>parts.
             Inr (fill_ri dedup (extras(''Reference Industries'' \<mapsto> Str (join '' '' parts)))))))"
  by (simp only: parse_profile_def base_extras_def Let_def and_then_assoc and_then_Inr)

lemma dom_default_extras:
  "dom default_extras =
     {''Certified Versions'', ''References Total'', ''Customer Retention %'',
      ''Largest Reference Users'', ''Average Reference Users'', ''Reference Industries''}
     \<union> set ALLOWED_RI_COLS"
  by (auto simp: default_extras_def init_ri_zero_dict_apply split: if_splits)

lemma ri_col_not_extra:
  assumes "c \<in> set ALLOWED_RI_COLS"
  shows "c \<noteq> ''Certified Versions''" "c \<noteq> ''References Total''" "c \<noteq> ''Customer Retention %''"
    "c \<noteq> ''Largest Reference Users''" "c \<noteq> ''Average Reference Users''"
    "c \<noteq> ''Reference Industries''"
  using ri_col_not_base [OF assms] by (auto simp: base_cols_def)

lemma default_extras_total: "default_extras ''References Total'' = Some NA"
  by (subst default_extras_base) (auto dest: ri_col_not_extra)

text \<open>
  What the steps before the block of industries keep: the keys of the defaults, and 0 in
  each of the 22 industry columns.
\<close>

definition extras_ok :: "row \<Rightarrow> bool" where
  "extras_ok e \<longleftrightarrow> dom e = dom default_extras \<and> (\<forall>c \<in> set ALLOWED_RI_COLS. e c = Some (Num 0))"

lemma extras_ok_default: "extras_ok default_extras"
  by (simp add: extras_ok_def default_extras_ri)

lemma extras_ok_upd:
  assumes "extras_ok e"
    and "k \<in> {''Certified Versions'', ''References Total'', ''Customer Retention %'',
      ''Largest Reference Users'', ''Average Reference Users'', ''Reference Industries''}"
  shows "extras_ok (e(k \<mapsto> v))"
proof -
  from assms(2) have "k \<in> dom default_extras" unfolding dom_default_extras by blast
  with assms(1) have "dom (e(k \<mapsto> v)) = dom default_extras"
    by (auto simp: extras_ok_def)
  moreover have "(e(k \<mapsto> v)) c = Some (Num 0)" if "c \<in> set ALLOWED_RI_COLS" for c
  proof -
    from ri_col_not_extra [OF that] assms(2) have "c \<noteq> k" by auto
    with assms(1) that show ?thesis by (simp add: extras_ok_def)
  qed
  ultimately show ?thesis by (simp add: extras_ok_def)
qed

lemma set_int_step:
  assumes "(case mo of Some m \<Rightarrow> and_then (py_int (g m)) (\<lambda>n. Inr (e(k \<mapsto> Num n))) | None \<Rightarrow> Inr e)
      = Inr e'"
  shows "e' = e \<or> (\<exists>m. mo = Some m \<and> py_int (g m) = Inr (int_of_digits (g m)) \<and>
                        e' = e(k \<mapsto> Num (int_of_digits (g m))))"
proof (cases mo)
  case None
  with assms show ?thesis by simp
next
  case (Some m)
  with assms obtain n where n: "py_int (g m) = Inr n" and e': "e' = e(k \<mapsto> Num n)"
    by (auto simp: and_then_eq_Inr)
  from n have "n = int_of_digits (g m)" by (rule py_int_Inr)
  with n e' Some show ?thesis by simp
qed

lemma base_extras_steps:
  assumes "base_extras norm = Inr extras"
  obtains e1 e2 e3 e4 where
    "e1 = default_extras \<or> (\<exists>v. e1 = default_extras(''Certified Versions'' \<mapsto> Str v))"
    and "e2 = e1 \<or> (\<exists>m. re_search True TOTAL_RE norm = Some m \<and>
           py_int (group m 1) = Inr (int_of_digits (group m 1)) \<and>
           e2 = e1(''References Total'' \<mapsto> Num (int_of_digits (group m 1))))"
    and "e3 = e2 \<or> (\<exists>m. re_search True RETENTION_RE norm = Some m \<and>
           py_int (group m 1) = Inr (int_of_digits (group m 1)) \<and>
           e3 = e2(''Customer Retention %'' \<mapsto> Num (int_of_digits (group m 1))))"
    and "e4 = e3 \<or> (\<exists>m. re_search True LARGEST_RE norm = Some m \<and>
           py_int (group m 1) = Inr (int_of_digits (group m 1)) \<and>
           e4 = e3(''Largest Reference Users'' \<mapsto> Num (int_of_digits (group m 1))))"
    and "extras = e4 \<or> (\<exists>m. re_search True AVERAGE_RE norm = Some m \<and>
           py_int (group m 1) = Inr (int_of_digits (group m 1)) \<and>
           extras = e4(''Average Reference Users'' \<mapsto> Num (int_of_digits (group m 1))))"
proof -
  from assms obtain e1 e2 e3 e4 where
    s1: "(if re_findall2 True CERT_RE norm \<noteq> []
          then and_then (certified_versions (re_findall2 True CERT_RE norm))
                 (\<lambda>v. Inr (default_extras(''Certified Versions'' \<mapsto> Str v)))
          else Inr default_extras) = Inr e1"
    and s2: "(case re_search True TOTAL_RE norm of
                Some m \<Rightarrow> and_then (py_int (group m 1))
                            (\<lambda>n. Inr (e1(''References Total'' \<mapsto> Num n)))
              | None \<Rightarrow> Inr e1) = Inr e2"
    and s3: "(case re_search True RETENTION_RE norm of
                Some m_ret \<Rightarrow> and_then (py_int (group m_ret 1))
                                (\<lambda>n. Inr (e2(''Customer Retention %'' \<mapsto> Num n)))
              | None \<Rightarrow> Inr e2) = Inr e3"
    and s4: "(case re_search True LARGEST_RE norm of
                Some m_largest \<Rightarrow> and_then (py_int (group m_largest 1))
                                    (\<lambda>n. Inr (e3(''Largest Reference Users'' \<mapsto> Num n)))
              | None \<Rightarrow> Inr e3) = Inr e4"
    and s5: "(case re_search True AVERAGE_RE norm of
                Some m_avg \<Rightarrow> and_then (py_int (group m_avg 1))
                                (\<lambda>n. Inr (e4(''Average Reference Users'' \<mapsto> Num n)))
              | None \<Rightarrow> Inr e4) = Inr extras"
    unfolding base_extras_def Let_def and_then_eq_Inr by blast
  from s1 have 1: "e1 = default_extras \<or> (\<exists>v. e1 = default_extras(''Certified Versions'' \<mapsto> Str v))"
    by (auto simp: and_then_eq_Inr split: if_splits)
  note 2 = set_int_step [OF s2]
  note 3 = set_int_step [OF s3]
  note 4 = set_int_step [OF s4]
  note 5 = set_int_step [OF s5]
  from 1 2 3 4 5 that show thesis by blast
qed

lemma base_extras_ok:
  assumes "base_extras norm = Inr extras"
  shows "extras_ok extras"
proof -
  from assms obtain e1 e2 e3 e4 where
    1: "e1 = default_extras \<or> (\<exists>v. e1 = default_extras(''Certified Versions'' \<mapsto> Str v))"
    and 2: "e2 = e1 \<or> (\<exists>m. re_search True TOTAL_RE norm = Some m \<and>
           py_int (group m 1) = Inr (int_of_digits (group m 1)) \<and>
           e2 = e1(''References Total'' \<mapsto> Num (int_of_digits (group m 1))))"
    and 3: "e3 = e2 \<or> (\<exists>m. re_search True RETENTION_RE norm = Some m \<and>
           py_int (group m 1) = Inr (int_of_digits (group m 1)) \<and>
           e3 = e2(''Customer Retention %'' \<mapsto> Num (int_of_digits (group m 1))))"
    and 4: "e4 = e3 \<or> (\<exists>m. re_search True LARGEST_RE norm = Some m \<and>
           py_int (group m 1) = Inr (int_of_digits (group m 1)) \<and>
           e4 = e3(''Largest Reference Users'' \<mapsto> Num (int_of_digits (group m 1))))"
    and 5: "extras = e4 \<or> (\<exists>m. re_search True AVERAGE_RE norm = Some m \<and>
           py_int (group m 1) = Inr (int_of_digits (group m 1)) \<and>
           extras = e4(''Average Reference Users'' \<mapsto> Num (int_of_digits (group m 1))))"
    by (rule base_extras_steps)
  from 1 have "extras_ok e1" using extras_ok_default extras_ok_upd by auto
  with 2 have "extras_ok e2" using extras_ok_upd by auto
  with 3 have "extras_ok e3" using extras_ok_upd by auto
  with 4 have "extras_ok e4" using extras_ok_upd by auto
  with 5 show ?thesis using extras_ok_upd by auto
qed

lemma base_extras_dom: "base_extras norm = Inr extras \<Longrightarrow> dom extras = dom default_extras"
  using base_extras_ok by (simp add: extras_ok_def)

lemma base_extras_ri:
  "base_extras norm = Inr extras \<Longrightarrow> c \<in> set ALLOWED_RI_COLS \<Longrightarrow> extras c = Some (Num 0)"
  using base_extras_ok by (simp add: extras_ok_def)

lemma base_extras_no_total:
  assumes "base_extras norm = Inr extras" and "re_search True TOTAL_RE norm = None"
  shows "extras ''References Total'' = Some NA"
proof -
  from assms(1) obtain e1 e2 e3 e4 where
    1: "e1 = default_extras \<or> (\<exists>v. e1 = default_extras(''Certified Versions'' \<mapsto> Str v))"
    and 2: "e2 = e1 \<or> (\<exists>m. re_search True TOTAL_RE norm = Some m \<and>
           py_int (group m 1) = Inr (int_of_digits (group m 1)) \<and>
           e2 = e1(''References Total'' \<mapsto> Num (int_of_digits (group m 1))))"
    and 3: "e3 = e2 \<or> (\<exists>m. re_search True RETENTION_RE norm = Some m \<and>
           py_int (group m 1) = Inr (int_of_digits (group m 1)) \<and>
           e3 = e2(''Customer Retention %'' \<mapsto> Num (int_of_digits (group m 1))))"
    and 4: "e4 = e3 \<or> (\<exists>m. re_search True LARGEST_RE norm = Some m \<and>
           py_int (group m 1) = Inr (int_of_digits (group m 1)) \<and>
           e4 = e3(''Largest Reference Users'' \<mapsto> Num (int_of_digits (group m 1))))"
    and 5: "extras = e4 \<or> (\<exists>m. re_search True AVERAGE_RE norm = Some m \<and>
           py_int (group m 1) = Inr (int_of_digits (group m 1)) \<and>
           extras = e4(''Average Reference Users'' \<mapsto> Num (int_of_digits (group m 1))))"
    by (rule base_extras_steps)
  from 1 have "e1 ''References Total'' = Some NA" using default_extras_total by auto
  with 2 assms(2) have "e2 ''References Total'' = Some NA" by auto
  with 3 have "e3 ''References Total'' = Some NA" by auto
  with 4 have "e4 ''References Total'' = Some NA" by auto
  with 5 show ?thesis by auto
qed

text \<open>
  The two ways in which the extractor returns: with the extras as they stand before the
  block of industries, when there is no anchor or nothing is found in the block; or with
  the industries found written into them.
\<close>

lemma parse_profile_Inr:
  assumes "parse_profile norm = Inr extras"
  obtains (plain) "base_extras norm = Inr extras"
      and "re_search True TOTAL_RE norm = None \<or>
           (\<exists>m. re_search True TOTAL_RE norm = Some m \<and> found_industries norm m = [])"
  | (filled) base m dedup order where "base_extras norm = Inr base"
      and "re_search True TOTAL_RE norm = Some m" and "found_industries norm m \<noteq> []"
      and "dedup_loop (found_industries norm m) [] [] = Inr (dedup, order)"
      and "extras = fill_ri dedup (base(''Reference Industries'' \<mapsto>
             Str (join '' '' (map (\<lambda>lab. lab @ '' '' @ decimal (dict_at dedup lab)) order))))"
proof -
  from assms obtain base where b: "base_extras norm = Inr base"
    and rest: "(case re_search True TOTAL_RE norm of
         None \<Rightarrow> Inr base
       | Some m \<Rightarrow>
           if found_industries norm m = [] then Inr base
           else
             and_then (dedup_loop (found_industries norm m) [] []) (\<lambda>(dedup, order).
             and_then (try_map (\<lambda>lab. and_then (py_str (dict_at dedup lab))
                                        (\<lambda>v. Inr (lab @ '' '' @ v))) order) (\<lambda>parts.
             Inr (fill_ri dedup (base(''Reference Industries'' \<mapsto> Str (join '' '' parts)))))))
       = Inr extras"
    unfolding parse_profile_alt and_then_eq_Inr by blast
  show thesis
  proof (cases "re_search True TOTAL_RE norm")
    case None
    with rest b have "base_extras norm = Inr extras" by simp
    with None plain show thesis by blast
  next
    case (Some m)
    show thesis
    proof (cases "found_industries norm m = []")
      case True
      with Some rest b have "base_extras norm = Inr extras" by simp
      with Some True plain show thesis by blast
    next
      case False
      with Some rest have "and_then (dedup_loop (found_industries norm m) [] []) (\<lambda>(dedup, order).
             and_then (try_map (\<lambda>lab. and_then (py_str (dict_at dedup lab))
                                        (\<lambda>v. Inr (lab @ '' '' @ v))) order) (\<lambda>parts.
             Inr (fill_ri dedup (base(''Reference Industries'' \<mapsto> Str (join '' '' parts))))))
         = Inr extras"
        by simp
      then obtain res where l: "dedup_loop (found_industries norm m) [] [] = Inr res"
        and r2: "(case res of (dedup, order) \<Rightarrow>
             and_then (try_map (\<lambda>lab. and_then (py_str (dict_at dedup lab))
                                        (\<lambda>v. Inr (lab @ '' '' @ v))) order) (\<lambda>parts.
             Inr (fill_ri dedup (base(''Reference Industries'' \<mapsto> Str (join '' '' parts))))))
           = Inr extras"
        unfolding and_then_eq_Inr by blast
      obtain dedup order where res: "res = (dedup, order)" by (cases res)
      from r2 res obtain parts where
        tm: "try_map (\<lambda>lab. and_then (py_str (dict_at dedup lab)) (\<lambda>v. Inr (lab @ '' '' @ v))) order
               = Inr parts"
        and ex: "extras = fill_ri dedup (base(''Reference Industries'' \<mapsto> Str (join '' '' parts)))"
        by (auto simp: and_then_eq_Inr)
      have "parts = map (\<lambda>lab. lab @ '' '' @ decimal (dict_at dedup lab)) order"
        using tm by (rule try_map_Inr) (auto simp: and_then_eq_Inr dest: py_str_Inr)
      with ex have "extras = fill_ri dedup (base(''Reference Industries'' \<mapsto>
             Str (join '' '' (map (\<lambda>lab. lab @ '' '' @ decimal (dict_at dedup lab)) order))))"
        by simp
      with b Some False l res filled show thesis by blast
    qed
  qed
qed

text \<open>
  The extractor raises when the count after the anchor has more than 4300 digits: the
  conversion of line 196 is not inside a \<open>try\<close>.
\<close>

lemma base_extras_raises:
  assumes "re_search True TOTAL_RE norm = Some m"
    and "int_max_str_digits < int (length (group m 1))"
  shows "base_extras norm = Inl ValueError"
proof -
  let ?a = "if re_findall2 True CERT_RE norm \<noteq> []
          then and_then (certified_versions (re_findall2 True CERT_RE norm))
                 (\<lambda>v. Inr (default_extras(''Certified Versions'' \<mapsto> Str v)))
          else Inr default_extras"
  from py_int_raises [OF assms(2)] assms(1) have "\<exists>e. base_extras norm = Inl e"
    unfolding base_extras_def Let_def
    by (cases ?a) (simp_all only: and_then_Inl and_then_Inr option.case sum.inject simp_thms)
  then obtain e where "base_extras norm = Inl e" by blast
  with error_ValueError [of e] show ?thesis by simp
qed

lemma parse_profile_raises:
  assumes "re_search True TOTAL_RE norm = Some m"
    and "int_max_str_digits < int (length (group m 1))"
  shows "parse_profile norm = Inl ValueError"
  by (simp only: parse_profile_alt base_extras_raises [OF assms] and_then_Inl)

text \<open>
  C4. When the anchor pattern (the word \<open>References\<close>, a hyphen with optional white space
  around it, digits; case-insensitive) matches nowhere in the profile text, the extras
  that the extractor returns have no total of references and have 0 in every one of the
  22 industry columns, whatever else the text holds. The extractor returns unless one of
  its conversions raises (a count of more than 4300 digits elsewhere on the page): then
  there are no extras at all.
\<close>

theorem parse_profile_no_anchor:
  assumes "re_search True TOTAL_RE norm = None" and "parse_profile norm = Inr extras"
  shows "extras ''References Total'' = Some NA \<and>
         (\<forall>col \<in> set ALLOWED_RI_COLS. extras col = Some (Num 0))"
proof -
  from assms(2) have b: "base_extras norm = Inr extras"
  proof (cases rule: parse_profile_Inr)
    case plain
    then show ?thesis by simp
  next
    case (filled base m dedup order)
    with assms(1) show ?thesis by simp
  qed
  from base_extras_no_total [OF b assms(1)] base_extras_ri [OF b] show ?thesis by blast
qed

lemma no_anchor_example:
  "re_search True TOTAL_RE ''12 References 5 Agriculture 2 Education'' = None"
proof -
  have "Option.is_none (re_search True TOTAL_RE ''12 References 5 Agriculture 2 Education'')"
    by code_simp
  then show ?thesis by (simp add: Option.is_none_def)
qed

lemma no_anchor_returns:
  "\<exists>extras. parse_profile ''12 References 5 Agriculture 2 Education'' = Inr extras"
proof -
  have "\<not> isl (parse_profile ''12 References 5 Agriculture 2 Education'')"
    by code_simp
  then show ?thesis by (cases "parse_profile ''12 References 5 Agriculture 2 Education''") simp_all
qed

text \<open>
  The theorem on a text without the anchor in which the industry pattern itself would find
  two industries with their counts: the extractor returns, with no total and with 0 for
  both industries.
\<close>

theorem parse_profile_no_anchor_witness:
  "re_findall2 False INDUSTRY_RE ''12 References 5 Agriculture 2 Education''
     = [(''5'', ''Agriculture''), (''2'', ''Education'')] \<and>
   (\<exists>extras. parse_profile ''12 References 5 Agriculture 2 Education'' = Inr extras \<and>
      extras ''References Total'' = Some NA \<and>
      extras ''RI_Agriculture'' = Some (Num 0) \<and>
      extras ''RI_Education'' = Some (Num 0))"
proof -
  have "re_findall2 False INDUSTRY_RE ''12 References 5 Agriculture 2 Education''
     = [(''5'', ''Agriculture''), (''2'', ''Education'')]"
    by code_simp
  moreover have "''RI_Agriculture'' \<in> set ALLOWED_RI_COLS" "''RI_Education'' \<in> set ALLOWED_RI_COLS"
    by (simp_all add: ALLOWED_RI_COLS_code)
  moreover from no_anchor_returns obtain extras where
    r: "parse_profile ''12 References 5 Agriculture 2 Education'' = Inr extras" by blast
  ultimately show ?thesis
    using parse_profile_no_anchor [OF no_anchor_example r] r by blast
qed

text \<open>
  C5. Let \<open>found\<close> be the pairs (count, label) found in the bounded block, and suppose
  there is one at least. In the extras that the extractor returns, the text of the
  reference industries lists the distinct labels in the order in which they are first
  seen, each followed by a space and the greatest of the counts found with it, the entries
  joined by spaces; and the column of a catalog label that was found holds that greatest
  count (not the sum). The extractor returns unless one of its conversions raises (a
  count of more than 4300 digits elsewhere on the page): then there are no extras at all.
\<close>

theorem industries_max_first_seen:
  assumes "parse_profile norm = Inr extras"
    and "re_search True TOTAL_RE norm = Some m"
    and "found_industries norm m = found" and "found \<noteq> []"
  shows "extras ''Reference Industries'' =
           Some (Str (join '' '' (map (\<lambda>lab. lab @ '' '' @ decimal (max_count found lab))
                                      (first_seen (map snd found))))) \<and>
         (\<forall>lab \<in> set ALLOWED_INDUSTRIES. lab \<in> snd ` set found \<longrightarrow>
            extras (make_safe_ri_column lab) = Some (Num (max_count found lab)))"
  using assms(1)
proof (cases rule: parse_profile_Inr)
  case plain
  with assms(2,3,4) show ?thesis by auto
next
  case (filled base m' dedup order)
  from filled(2) assms(2) have m': "m' = m" by simp
  from filled(4) m' assms(3) have loop: "dedup_loop found [] [] = Inr (dedup, order)" by simp
  note res = dedup_loop_result [OF loop]
  note pp = filled(5)
  have meq: "map (\<lambda>lab. lab @ '' '' @ decimal (dict_at dedup lab)) order
      = map (\<lambda>lab. lab @ '' '' @ decimal (max_count found lab)) order"
    using res(3) by (simp cong: map_cong)
  have "''Reference Industries'' \<notin> set ALLOWED_RI_COLS"
    using ri_col_not_extra(6) by blast
  then have "extras ''Reference Industries'' =
      Some (Str (join '' '' (map (\<lambda>lab. lab @ '' '' @ decimal (dict_at dedup lab)) order)))"
    by (simp add: pp fill_ri_other)
  then have rendering: "extras ''Reference Industries'' =
      Some (Str (join '' '' (map (\<lambda>lab. lab @ '' '' @ decimal (max_count found lab))
                                 (first_seen (map snd found)))))"
    unfolding meq res(1) [symmetric] .
  have "extras (make_safe_ri_column lab) = Some (Num (max_count found lab))"
    if cat: "lab \<in> set ALLOWED_INDUSTRIES" and seen: "lab \<in> snd ` set found" for lab
  proof -
    from seen res(1) res(2) have "lab \<in> set (map fst dedup)" by (simp add: set_first_seen)
    then obtain cnt where in_d: "(lab, cnt) \<in> set dedup" by auto
    with res(5) have "cnt = max_count found lab" by blast
    with fill_ri_matched [OF res(4) in_d cat] show ?thesis by (simp add: pp)
  qed
  with rendering show ?thesis by blast
qed

text \<open>
  The theorem on a page where two labels occur twice each: Agriculture with 3 and 5,
  Education with 7 and 2.
\<close>

theorem industries_max_first_seen_witness:
  "\<exists>extras.
     parse_profile ''References - 9 3 Agriculture 7 Education 5 Agriculture 2 Education'' = Inr extras \<and>
     extras ''Reference Industries'' = Some (Str ''Agriculture 5 Education 7'') \<and>
     extras ''RI_Agriculture'' = Some (Num 5)"
proof -
  let ?w = "''References - 9 3 Agriculture 7 Education 5 Agriculture 2 Education''"
  let ?f = "[(''3'', ''Agriculture''), (''7'', ''Education''), (''5'', ''Agriculture''), (''2'', ''Education'')]"
  have "map_option (found_industries ?w) (re_search True TOTAL_RE ?w) = Some ?f"
    by code_simp
  then obtain m where m: "re_search True TOTAL_RE ?w = Some m" "found_industries ?w m = ?f"
    by auto
  have "\<not> isl (parse_profile ?w)" by code_simp
  then obtain extras where r: "parse_profile ?w = Inr extras"
    by (cases "parse_profile ?w") simp_all
  have ne: "?f \<noteq> []" by simp
  have rendered: "join '' '' (map (\<lambda>lab. lab @ '' '' @ decimal (max_count ?f lab)) (first_seen (map snd ?f)))
      = ''Agriculture 5 Education 7''"
    by code_simp
  have col: "make_safe_ri_column ''Agriculture'' = ''RI_Agriculture''" by code_simp
  have mx: "max_count ?f ''Agriculture'' = 5" by code_simp
  have cat: "''Agriculture'' \<in> set ALLOWED_INDUSTRIES" by (simp add: ALLOWED_INDUSTRIES_def)
  have seen: "''Agriculture'' \<in> snd ` set ?f" by simp
  note inst = industries_max_first_seen [OF r m ne]
  from inst have "extras ''Reference Industries'' = Some (Str ''Agriculture 5 Education 7'')"
    by (simp only: rendered)
  moreover from inst cat seen have
    "extras (make_safe_ri_column ''Agriculture'') = Some (Num (max_count ?f ''Agriculture''))"
    by blast
  then have "extras ''RI_Agriculture'' = Some (Num 5)"
    by (simp only: col mx)
  ultimately show ?thesis using r by blast
qed

section \<open>The final table, row by row\<close>

text \<open>
  Every step of \<open>clean_and_export\<close> but the last works on each row by itself. The row
  that the steps make of an input row:
\<close>

definition reindex_row :: "string list \<Rightarrow> row \<Rightarrow> row" where
  "reindex_row cols r = (\<lambda>c. if c \<in> set cols then Some (cell_at r c) else None)"

definition upd_cols :: "(cell \<Rightarrow> cell) \<Rightarrow> string list \<Rightarrow> row \<Rightarrow> row" where
  "upd_cols f cols r = fold (\<lambda>col r. r(col \<mapsto> f (cell_at r col))) cols r"

definition clean_row :: "(string \<Rightarrow> int option) \<Rightarrow> row \<Rightarrow> row" where
  "clean_row parse r =
     upd_cols (to_int_col parse) ALLOWED_RI_COLS
       (upd_cols (to_numeric parse)
          [''References Total'', ''Customer Retention %'',
           ''Largest Reference Users'', ''Average Reference Users'']
          (upd_cols (to_int_col parse) [''References'', ''Certified Experts'']
             (upd_cols (\<lambda>c. str_strip (astype_str (fillna (Str []) c))) [''Partner Name'']
                (reindex_row expected_cols r))))"

text \<open>The rows that pass the filters on the name and on the two counts.\<close>

definition keep_row :: "row \<Rightarrow> bool" where
  "keep_row r \<longleftrightarrow>
     cell_at r ''Partner Name'' \<noteq> Str [] \<and> \<not> is_placeholder (cell_at r ''Partner Name'') \<and>
     (gt0 (cell_at r ''References'') \<or> gt0 (cell_at r ''Certified Experts''))"

definition kept_rows :: "(string \<Rightarrow> int option) \<Rightarrow> frame \<Rightarrow> frame" where
  "kept_rows parse df = filter keep_row (map (clean_row parse) df)"

definition row_key :: "row \<Rightarrow> cell list" where
  "row_key r = map (cell_at r) [''Partner Name'', ''Tier'', ''Location'']"

lemma reindex_map: "reindex cols df = map (reindex_row cols) df"
  by (simp add: reindex_def reindex_row_def)

lemma fold_set_col:
  "fold (\<lambda>col. set_col col f) cols df = map (upd_cols f cols) df"
proof (induction cols arbitrary: df)
  case Nil
  show ?case by (simp add: upd_cols_def)
next
  case (Cons col cols)
  have "fold (\<lambda>col. set_col col f) (col # cols) df = fold (\<lambda>col. set_col col f) cols (set_col col f df)"
    by simp
  also have "\<dots> = map (upd_cols f cols) (set_col col f df)" by (rule Cons.IH)
  also have "\<dots> = map (upd_cols f (col # cols)) df"
    by (simp add: set_col_def upd_cols_def)
  finally show ?case .
qed

lemma set_col_upd: "set_col col f df = map (upd_cols f [col]) df"
  by (simp add: set_col_def upd_cols_def)

lemma upd_cols_apply:
  "distinct cols \<Longrightarrow>
   upd_cols f cols r c = (if c \<in> set cols then Some (f (cell_at r c)) else r c)"
proof (induction cols arbitrary: r)
  case Nil
  show ?case by (simp add: upd_cols_def)
next
  case (Cons col cols)
  have step: "upd_cols f (col # cols) r = upd_cols f cols (r(col \<mapsto> f (cell_at r col)))"
    by (simp add: upd_cols_def)
  from Cons.prems have d: "distinct cols" and notin: "col \<notin> set cols" by simp_all
  have "upd_cols f cols (r(col \<mapsto> f (cell_at r col))) c =
      (if c \<in> set cols then Some (f (cell_at (r(col \<mapsto> f (cell_at r col))) c))
       else (r(col \<mapsto> f (cell_at r col))) c)"
    using d by (rule Cons.IH)
  with notin show ?case unfolding step by (auto simp: cell_at_def)
qed

lemma cell_at_upd_cols:
  "distinct cols \<Longrightarrow>
   cell_at (upd_cols f cols r) c = (if c \<in> set cols then f (cell_at r c) else cell_at r c)"
  by (simp add: cell_at_def upd_cols_apply)

lemma cell_at_reindex_row:
  "cell_at (reindex_row cols r) c = (if c \<in> set cols then cell_at r c else NA)"
  by (simp add: cell_at_def reindex_row_def)

lemma base_col_not_ri: "c \<in> set base_cols \<Longrightarrow> c \<notin> set ALLOWED_RI_COLS"
  using ri_col_not_base by blast

lemma name_not_ri: "''Partner Name'' \<notin> set ALLOWED_RI_COLS"
  by (rule base_col_not_ri) (simp add: base_cols_def)

lemma refs_not_ri: "''References'' \<notin> set ALLOWED_RI_COLS"
  by (rule base_col_not_ri) (simp add: base_cols_def)

lemma experts_not_ri: "''Certified Experts'' \<notin> set ALLOWED_RI_COLS"
  by (rule base_col_not_ri) (simp add: base_cols_def)

text \<open>The cells of a cleaned row, column by column.\<close>

lemma clean_row_name:
  "cell_at (clean_row parse r) ''Partner Name'' = str_strip (astype_str (fillna (Str []) (cell_at r ''Partner Name'')))"
  by (simp add: clean_row_def cell_at_upd_cols distinct_ALLOWED_RI_COLS name_not_ri
      cell_at_reindex_row expected_cols_def base_cols_def)

lemma clean_row_refs:
  "cell_at (clean_row parse r) ''References'' = to_int_col parse (cell_at r ''References'')"
  by (simp add: clean_row_def cell_at_upd_cols distinct_ALLOWED_RI_COLS refs_not_ri
      cell_at_reindex_row expected_cols_def base_cols_def)

lemma clean_row_experts:
  "cell_at (clean_row parse r) ''Certified Experts'' = to_int_col parse (cell_at r ''Certified Experts'')"
  by (simp add: clean_row_def cell_at_upd_cols distinct_ALLOWED_RI_COLS experts_not_ri
      cell_at_reindex_row expected_cols_def base_cols_def)

lemma clean_row_plain:
  assumes "c \<in> {''Tier'', ''Location'', ''Profile URL'', ''Certified Versions'', ''Reference Industries''}"
  shows "cell_at (clean_row parse r) c = cell_at r c"
proof -
  from assms have "c \<in> set base_cols" by (auto simp: base_cols_def)
  then have "c \<notin> set ALLOWED_RI_COLS" by (rule base_col_not_ri)
  with assms show ?thesis
    by (auto simp: clean_row_def cell_at_upd_cols distinct_ALLOWED_RI_COLS
        cell_at_reindex_row expected_cols_def base_cols_def)
qed

text \<open>The test of the filters and the key, read from the cells of the input row.\<close>

definition clean_name :: "cell \<Rightarrow> cell" where
  "clean_name c = str_strip (astype_str (fillna (Str []) c))"

lemma keep_row_clean:
  "keep_row (clean_row parse r) \<longleftrightarrow>
     clean_name (cell_at r ''Partner Name'') \<noteq> Str [] \<and>
     \<not> is_placeholder (clean_name (cell_at r ''Partner Name'')) \<and>
     (gt0 (to_int_col parse (cell_at r ''References'')) \<or>
      gt0 (to_int_col parse (cell_at r ''Certified Experts'')))"
  by (simp add: keep_row_def clean_row_name clean_row_refs clean_row_experts clean_name_def)

lemma row_key_clean:
  "row_key (clean_row parse r) =
     [clean_name (cell_at r ''Partner Name''), cell_at r ''Tier'', cell_at r ''Location'']"
  by (simp add: row_key_def clean_row_name clean_row_plain clean_name_def)

lemma clean_row_ri:
  assumes "c \<in> set ALLOWED_RI_COLS"
  shows "clean_row parse r c = Some (to_int_col parse (cell_at r c))"
proof -
  from ri_col_not_base [OF assms] have ne:
    "c \<noteq> ''Partner Name''" "c \<noteq> ''References''" "c \<noteq> ''Certified Experts''"
    "c \<noteq> ''References Total''" "c \<noteq> ''Customer Retention %''"
    "c \<noteq> ''Largest Reference Users''" "c \<noteq> ''Average Reference Users''"
    by (simp_all add: base_cols_def)
  have "clean_row parse r c = Some (to_int_col parse (cell_at
      (upd_cols (to_numeric parse)
          [''References Total'', ''Customer Retention %'',
           ''Largest Reference Users'', ''Average Reference Users'']
          (upd_cols (to_int_col parse) [''References'', ''Certified Experts'']
             (upd_cols (\<lambda>c. str_strip (astype_str (fillna (Str []) c))) [''Partner Name'']
                (reindex_row expected_cols r)))) c))"
    using assms by (simp add: clean_row_def upd_cols_apply distinct_ALLOWED_RI_COLS)
  also have "cell_at
      (upd_cols (to_numeric parse)
          [''References Total'', ''Customer Retention %'',
           ''Largest Reference Users'', ''Average Reference Users'']
          (upd_cols (to_int_col parse) [''References'', ''Certified Experts'']
             (upd_cols (\<lambda>c. str_strip (astype_str (fillna (Str []) c))) [''Partner Name'']
                (reindex_row expected_cols r)))) c = cell_at (reindex_row expected_cols r) c"
    using ne by (simp add: cell_at_upd_cols)
  also have "\<dots> = cell_at r c"
    using assms by (simp add: cell_at_reindex_row expected_cols_def)
  finally show ?thesis .
qed

lemma dom_upd_cols: "dom (upd_cols f cols r) = dom r \<union> set cols"
proof (induction cols arbitrary: r)
  case Nil
  show ?case by (simp add: upd_cols_def)
next
  case (Cons col cols)
  have step: "upd_cols f (col # cols) r = upd_cols f cols (r(col \<mapsto> f (cell_at r col)))"
    by (simp add: upd_cols_def)
  have "dom (upd_cols f cols (r(col \<mapsto> f (cell_at r col)))) = dom (r(col \<mapsto> f (cell_at r col))) \<union> set cols"
    by (rule Cons.IH)
  then show ?case unfolding step by auto
qed

lemma dom_reindex_row: "dom (reindex_row cols r) = set cols"
  by (auto simp: reindex_row_def split: if_splits)

lemma dom_clean_row: "dom (clean_row parse r) = set expected_cols"
  by (auto simp: clean_row_def dom_upd_cols dom_reindex_row expected_cols_def base_cols_def)

text \<open>The table is the cleaned rows that pass the filters, without their duplicates.\<close>

lemma clean_and_export_rows:
  "clean_and_export parse df =
     drop_duplicates [''Partner Name'', ''Tier'', ''Location''] (kept_rows parse df)"
proof -
  define s1 where "s1 = upd_cols (\<lambda>c. str_strip (astype_str (fillna (Str []) c))) [''Partner Name'']"
  define s2 where "s2 = upd_cols (to_int_col parse) [''References'', ''Certified Experts'']"
  define s3 where "s3 = upd_cols (to_numeric parse) [''References Total'', ''Customer Retention %'',
           ''Largest Reference Users'', ''Average Reference Users'']"
  define s4 where "s4 = upd_cols (to_int_col parse) ALLOWED_RI_COLS"
  define nm where "nm = (\<lambda>r. cell_at r ''Partner Name'' \<noteq> Str [] \<and> \<not> is_placeholder (cell_at r ''Partner Name''))"
  define gt where "gt = (\<lambda>r. gt0 (cell_at r ''References'') \<or> gt0 (cell_at r ''Certified Experts''))"
  have name_same: "cell_at (s4 (s3 (s2 r))) ''Partner Name'' = cell_at r ''Partner Name''" for r
    by (simp add: s2_def s3_def s4_def cell_at_upd_cols distinct_ALLOWED_RI_COLS name_not_ri)
  have nm_same: "nm (s4 (s3 (s2 r))) = nm r" for r
    by (simp add: nm_def name_same)
  have two: "filter (\<lambda>r. \<not> is_placeholder (cell_at r ''Partner Name''))
               (filter (\<lambda>r. cell_at r ''Partner Name'' \<noteq> Str []) xs) = filter nm xs" for xs
    by (simp add: nm_def)
  have "clean_and_export parse df =
      drop_duplicates [''Partner Name'', ''Tier'', ''Location'']
        (filter gt (map s4 (map s3 (map s2 (filter nm (map s1 (map (reindex_row expected_cols) df)))))))"
    unfolding clean_and_export_def Let_def fold_set_col reindex_map set_col_upd two
      s1_def [symmetric] s2_def [symmetric] s3_def [symmetric] s4_def [symmetric] gt_def [symmetric]
    by (rule refl)
  also have "map s4 (map s3 (map s2 (filter nm (map s1 (map (reindex_row expected_cols) df)))))
      = filter nm (map (clean_row parse) df)"
  proof -
    have "map s4 (map s3 (map s2 (filter nm xs))) = filter nm (map (\<lambda>r. s4 (s3 (s2 r))) xs)" for xs
      by (induction xs) (simp_all add: nm_same)
    moreover have "map (\<lambda>r. s4 (s3 (s2 r))) (map s1 (map (reindex_row expected_cols) df))
        = map (clean_row parse) df"
      by (simp add: clean_row_def s1_def s2_def s3_def s4_def)
    ultimately show ?thesis by (simp only:)
  qed
  also have "filter gt (filter nm (map (clean_row parse) df)) = kept_rows parse df"
    by (auto simp: kept_rows_def keep_row_def gt_def nm_def intro: filter_cong)
  finally show ?thesis .
qed

section \<open>Dropping duplicates\<close>

lemma drop_dups_subset: "set (drop_dups cols seen rs) \<subseteq> set rs"
  by (induction cols seen rs rule: drop_dups.induct) (auto simp: Let_def)

lemma filter_notin_Cons:
  "filter (\<lambda>k. k \<notin> set (x # seen)) ks = filter (\<lambda>k. k \<noteq> x) (filter (\<lambda>k. k \<notin> set seen) ks)"
  by (induction ks) auto

lemma drop_dups_keys:
  "map (\<lambda>r. map (cell_at r) cols) (drop_dups cols seen rs)
     = first_seen (filter (\<lambda>k. k \<notin> set seen) (map (\<lambda>r. map (cell_at r) cols) rs))"
proof -
  define key where "key = (\<lambda>r. map (cell_at r) cols)"
  have step: "drop_dups cols seen (r # rs) =
      (if key r \<in> set seen then drop_dups cols seen rs else r # drop_dups cols (key r # seen) rs)"
    for seen r rs
    by (simp add: key_def Let_def)
  have "map key (drop_dups cols seen rs) = first_seen (filter (\<lambda>k. k \<notin> set seen) (map key rs))"
  proof (induction rs arbitrary: seen)
    case Nil
    show ?case by simp
  next
    case (Cons r rs)
    show ?case
    proof (cases "key r \<in> set seen")
      case True
      with Cons.IH [of seen] show ?thesis unfolding step by simp
    next
      case False
      have "map key (drop_dups cols (key r # seen) rs)
          = filter (\<lambda>k. k \<noteq> key r) (first_seen (filter (\<lambda>k. k \<notin> set seen) (map key rs)))"
        unfolding Cons.IH [of "key r # seen"] filter_notin_Cons first_seen_filter by (rule refl)
      with False show ?thesis unfolding step by simp
    qed
  qed
  then show ?thesis by (simp only: key_def)
qed

lemma drop_dups_first:
  "r \<in> set (drop_dups cols seen rs) \<Longrightarrow>
   map (cell_at r) cols \<notin> set seen \<and>
   find (\<lambda>x. map (cell_at x) cols = map (cell_at r) cols) rs = Some r"
proof -
  define key where "key = (\<lambda>r. map (cell_at r) cols)"
  have step: "drop_dups cols seen (x # rs) =
      (if key x \<in> set seen then drop_dups cols seen rs else x # drop_dups cols (key x # seen) rs)"
    for seen x rs
    by (simp add: key_def Let_def)
  have "r \<in> set (drop_dups cols seen rs) \<Longrightarrow>
      key r \<notin> set seen \<and> find (\<lambda>x. key x = key r) rs = Some r"
  proof (induction rs arbitrary: seen)
    case Nil
    then show ?case by simp
  next
    case (Cons x rs)
    show ?case
    proof (cases "key x \<in> set seen")
      case True
      with Cons.prems have "r \<in> set (drop_dups cols seen rs)" unfolding step by simp
      from Cons.IH [OF this] True show ?thesis by auto
    next
      case False
      show ?thesis
      proof (cases "r = x")
        case True
        with False show ?thesis by simp
      next
        case ne: False
        with Cons.prems False have "r \<in> set (drop_dups cols (key x # seen) rs)"
          unfolding step by simp
        from Cons.IH [OF this] show ?thesis by auto
      qed
    qed
  qed
  then show "r \<in> set (drop_dups cols seen rs) \<Longrightarrow>
   map (cell_at r) cols \<notin> set seen \<and>
   find (\<lambda>x. map (cell_at x) cols = map (cell_at r) cols) rs = Some r"
    unfolding key_def .
qed


section \<open>Examples of tables\<close>

text \<open>
  For the examples, the reading of a string as a number on the strings the scraper
  stores in the count columns: a string of ASCII digits reads as its number.
\<close>

definition parse_digits :: "string \<Rightarrow> int option" where
  "parse_digits s = (if s \<noteq> [] \<and> list_all isdigit s then Some (int_of_digits s) else None)"

definition draft :: "string \<Rightarrow> string \<Rightarrow> string \<Rightarrow> row" where
  "draft refs experts url =
     [''Partner Name'' \<mapsto> Str ''Acme'', ''Tier'' \<mapsto> Str ''Gold'', ''Location'' \<mapsto> Str ''Cairo'',
      ''References'' \<mapsto> Str refs, ''Certified Experts'' \<mapsto> Str experts, ''Profile URL'' \<mapsto> Str url]"

section \<open>The rows of the final table (C8, C9)\<close>

lemma draft_cells:
  "clean_name (cell_at (draft refs experts url) ''Partner Name'') = Str ''Acme''"
  "cell_at (draft refs experts url) ''Tier'' = Str ''Gold''"
  "cell_at (draft refs experts url) ''Location'' = Str ''Cairo''"
  "cell_at (draft refs experts url) ''References'' = Str refs"
  "cell_at (draft refs experts url) ''Certified Experts'' = Str experts"
  "cell_at (draft refs experts url) ''Profile URL'' = Str url"
  by code_simp+

lemma acme_not_placeholder: "\<not> is_placeholder (Str ''Acme'')"
  by code_simp

lemma digits_examples:
  "to_int_col parse_digits (Str ''0'') = Num 0"
  "to_int_col parse_digits (Str ''5'') = Num 5"
  "to_int_col parse_digits (Str ''7'') = Num 7"
  by code_simp+

lemma keep_draft:
  "keep_row (clean_row parse_digits (draft ''5'' ''0'' url))"
  "keep_row (clean_row parse_digits (draft ''7'' ''0'' url))"
  "\<not> keep_row (clean_row parse_digits (draft ''0'' ''0'' url))"
  by (simp_all add: keep_row_clean draft_cells acme_not_placeholder digits_examples gt0_def)

lemma key_draft:
  "row_key (clean_row parse_digits (draft refs experts url)) = [Str ''Acme'', Str ''Gold'', Str ''Cairo'']"
  by (simp add: row_key_clean draft_cells)

lemma url_draft:
  "cell_at (clean_row parse_digits (draft refs experts url)) ''Profile URL'' = Str url"
  by (simp add: clean_row_plain draft_cells)

lemma clean_and_export_subset: "set (clean_and_export parse df) \<subseteq> set (kept_rows parse df)"
  by (simp add: clean_and_export_rows drop_duplicates_def drop_dups_subset)

text \<open>
  C8. Every row of the final table has a number of references above 0 or a number of
  certified experts above 0, and it is the cleaned form of an input row whose coerced
  counts are so. An input row whose two counts are both 0 once coerced is not in the
  table, whatever its other fields hold.
\<close>

theorem clean_and_export_positive_counts:
  "(\<forall>r' \<in> set (clean_and_export parse df).
      (gt0 (cell_at r' ''References'') \<or> gt0 (cell_at r' ''Certified Experts'')) \<and>
      (\<exists>r \<in> set df. r' = clean_row parse r \<and>
         (gt0 (to_int_col parse (cell_at r ''References'')) \<or>
          gt0 (to_int_col parse (cell_at r ''Certified Experts''))))) \<and>
   (\<forall>r \<in> set df.
      to_int_col parse (cell_at r ''References'') = Num 0 \<and>
      to_int_col parse (cell_at r ''Certified Experts'') = Num 0 \<longrightarrow>
      clean_row parse r \<notin> set (clean_and_export parse df))"
proof (intro conjI ballI impI)
  fix r' assume "r' \<in> set (clean_and_export parse df)"
  with clean_and_export_subset have k: "r' \<in> set (kept_rows parse df)" by blast
  then show g: "gt0 (cell_at r' ''References'') \<or> gt0 (cell_at r' ''Certified Experts'')"
    by (simp add: kept_rows_def keep_row_def)
  from k obtain r where r: "r \<in> set df" "r' = clean_row parse r"
    by (auto simp: kept_rows_def)
  with g have "gt0 (to_int_col parse (cell_at r ''References'')) \<or>
          gt0 (to_int_col parse (cell_at r ''Certified Experts''))"
    by (simp add: clean_row_refs clean_row_experts)
  with r show "\<exists>r \<in> set df. r' = clean_row parse r \<and>
         (gt0 (to_int_col parse (cell_at r ''References'')) \<or>
          gt0 (to_int_col parse (cell_at r ''Certified Experts'')))"
    by blast
next
  fix r assume "r \<in> set df" and z: "to_int_col parse (cell_at r ''References'') = Num 0 \<and>
      to_int_col parse (cell_at r ''Certified Experts'') = Num 0"
  then have "\<not> keep_row (clean_row parse r)"
    by (simp add: keep_row_def clean_row_refs clean_row_experts gt0_def)
  then have "clean_row parse r \<notin> set (kept_rows parse df)" by (simp add: kept_rows_def)
  with clean_and_export_subset show "clean_row parse r \<notin> set (clean_and_export parse df)" by blast
qed

text \<open>
  The theorem on a table of two drafts: the first has a location and a profile address but
  both counts 0, and its cleaned row is not in the result.
\<close>

theorem clean_and_export_positive_counts_witness:
  "cell_at (draft ''0'' ''0'' ''/a'') ''Location'' = Str ''Cairo'' \<and>
   to_int_col parse_digits (cell_at (draft ''0'' ''0'' ''/a'') ''References'') = Num 0 \<and>
   to_int_col parse_digits (cell_at (draft ''0'' ''0'' ''/a'') ''Certified Experts'') = Num 0 \<and>
   clean_row parse_digits (draft ''0'' ''0'' ''/a'')
     \<notin> set (clean_and_export parse_digits [draft ''0'' ''0'' ''/a'', draft ''5'' ''0'' ''/b''])"
proof -
  have 1: "cell_at (draft ''0'' ''0'' ''/a'') ''Location'' = Str ''Cairo''"
    by (simp add: draft_cells)
  have 2: "to_int_col parse_digits (cell_at (draft ''0'' ''0'' ''/a'') ''References'') = Num 0"
    by (simp add: draft_cells digits_examples)
  have 3: "to_int_col parse_digits (cell_at (draft ''0'' ''0'' ''/a'') ''Certified Experts'') = Num 0"
    by (simp add: draft_cells digits_examples)
  have "draft ''0'' ''0'' ''/a'' \<in> set [draft ''0'' ''0'' ''/a'', draft ''5'' ''0'' ''/b'']" by simp
  with clean_and_export_positive_counts
    [of parse_digits "[draft ''0'' ''0'' ''/a'', draft ''5'' ''0'' ''/b'']"] 2 3
  have "clean_row parse_digits (draft ''0'' ''0'' ''/a'')
     \<notin> set (clean_and_export parse_digits [draft ''0'' ''0'' ''/a'', draft ''5'' ''0'' ''/b''])"
    by blast
  with 1 2 3 show ?thesis by blast
qed

text \<open>
  C9, as the code has it. Duplicates are dropped last, among the rows that have passed the
  filters on the name and on the counts (\<open>kept_rows\<close>, in input order, the name
  stripped). The keys (name, tier, location) of the final table are the distinct keys of
  those rows in first-seen order, no key occurs twice, and each row of the table is the
  first of those rows with its key.
\<close>

theorem clean_and_export_first_of_key:
  "map row_key (clean_and_export parse df) = first_seen (map row_key (kept_rows parse df)) \<and>
   distinct (map row_key (clean_and_export parse df)) \<and>
   (\<forall>r \<in> set (clean_and_export parse df).
      find (\<lambda>x. row_key x = row_key r) (kept_rows parse df) = Some r)"
proof -
  have keys: "map row_key (clean_and_export parse df) = first_seen (map row_key (kept_rows parse df))"
    using drop_dups_keys [of "[''Partner Name'', ''Tier'', ''Location'']" "[]" "kept_rows parse df"]
    unfolding clean_and_export_rows drop_duplicates_def row_key_def by simp
  moreover from keys have "distinct (map row_key (clean_and_export parse df))"
    by (simp add: distinct_first_seen)
  moreover have "find (\<lambda>x. row_key x = row_key r) (kept_rows parse df) = Some r"
    if "r \<in> set (clean_and_export parse df)" for r
    using that drop_dups_first [of r "[''Partner Name'', ''Tier'', ''Location'']" "[]" "kept_rows parse df"]
    unfolding clean_and_export_rows drop_duplicates_def row_key_def by blast
  ultimately show ?thesis by blast
qed

text \<open>
  The theorem on two drafts with the same key and different profile addresses, both with
  a positive count: the first stays.
\<close>

theorem clean_and_export_first_of_key_witness:
  "map (\<lambda>r. (row_key r, cell_at r ''Profile URL''))
       (kept_rows parse_digits [draft ''5'' ''0'' ''/b'', draft ''7'' ''0'' ''/c''])
     = [([Str ''Acme'', Str ''Gold'', Str ''Cairo''], Str ''/b''),
        ([Str ''Acme'', Str ''Gold'', Str ''Cairo''], Str ''/c'')] \<and>
   map (\<lambda>r. cell_at r ''Profile URL'')
       (clean_and_export parse_digits [draft ''5'' ''0'' ''/b'', draft ''7'' ''0'' ''/c''])
     = [Str ''/b'']"
proof -
  let ?df = "[draft ''5'' ''0'' ''/b'', draft ''7'' ''0'' ''/c'']"
  let ?k = "[Str ''Acme'', Str ''Gold'', Str ''Cairo'']"
  let ?x1 = "clean_row parse_digits (draft ''5'' ''0'' ''/b'')"
  let ?x2 = "clean_row parse_digits (draft ''7'' ''0'' ''/c'')"
  have kept: "kept_rows parse_digits ?df = [?x1, ?x2]"
    by (simp add: kept_rows_def keep_draft)
  note inst = clean_and_export_first_of_key [of parse_digits ?df]
  from inst have "map row_key (clean_and_export parse_digits ?df) = [?k]"
    by (simp add: kept key_draft)
  then obtain r where r: "clean_and_export parse_digits ?df = [r]" "row_key r = ?k" by auto
  with inst have "find (\<lambda>x. row_key x = row_key r) (kept_rows parse_digits ?df) = Some r" by simp
  with r(2) have "r = ?x1" by (simp add: kept key_draft)
  with r(1) show ?thesis by (simp add: kept key_draft url_draft)
qed

text \<open>
  The claim as the specification words it (of any two drafts with the same key only the
  first in input order is retained) fails when the first draft has both counts 0: the
  filter on the counts removes it before duplicates are dropped, and the second is the
  one retained.
\<close>

theorem clean_and_export_later_duplicate_kept:
  "row_key (clean_row parse_digits (draft ''0'' ''0'' ''/a''))
     = row_key (clean_row parse_digits (draft ''5'' ''0'' ''/b'')) \<and>
   map (\<lambda>r. cell_at r ''Profile URL'')
       (clean_and_export parse_digits [draft ''0'' ''0'' ''/a'', draft ''5'' ''0'' ''/b''])
     = [Str ''/b'']"
proof -
  have "kept_rows parse_digits [draft ''0'' ''0'' ''/a'', draft ''5'' ''0'' ''/b'']
      = [clean_row parse_digits (draft ''5'' ''0'' ''/b'')]"
    by (simp add: kept_rows_def keep_draft)
  then have "clean_and_export parse_digits [draft ''0'' ''0'' ''/a'', draft ''5'' ''0'' ''/b'']
      = [clean_row parse_digits (draft ''5'' ''0'' ''/b'')]"
    by (simp add: clean_and_export_rows drop_duplicates_def Let_def)
  then show ?thesis by (simp add: key_draft url_draft)
qed


section \<open>The industry columns of every record (C1)\<close>

text \<open>
  The industry counts of a record: its columns other than the twelve base columns. The
  labels matched on a profile page: those found in the bounded block, none without the
  anchor.
\<close>

definition industry_counts :: "row \<Rightarrow> row" where
  "industry_counts r = r |` (- set base_cols)"

definition matched_labels :: "string \<Rightarrow> string set" where
  "matched_labels norm =
     (case re_search True TOTAL_RE norm of
        None \<Rightarrow> {}
      | Some m \<Rightarrow> snd ` set (found_industries norm m))"

lemma card_ri_cols: "card (set ALLOWED_RI_COLS) = 22"
  using distinct_ALLOWED_RI_COLS length_ALLOWED_RI_COLS by (simp add: distinct_card)

lemma industry_counts_expected:
  "dom r = set expected_cols \<Longrightarrow> dom (industry_counts r) = set ALLOWED_RI_COLS"
  using ri_col_not_base by (auto simp: industry_counts_def expected_cols_def)

lemma industry_counts_extras:
  assumes "dom r = dom default_extras"
  shows "dom (industry_counts r) = set ALLOWED_RI_COLS"
proof -
  have "{''Certified Versions'', ''References Total'', ''Customer Retention %'',
      ''Largest Reference Users'', ''Average Reference Users'', ''Reference Industries''}
      \<subseteq> set base_cols"
    by (simp add: base_cols_def)
  with assms ri_col_not_base show ?thesis
    by (auto simp: industry_counts_def dom_default_extras)
qed

lemma to_int_col_Num: "\<exists>n. to_int_col parse c = Num n"
  by (cases c) (auto simp: to_int_col_def to_numeric_def fillna_def split: option.splits)

lemma to_int_col_missing: "to_int_col parse NA = Num 0"
  by (simp add: to_int_col_def to_numeric_def fillna_def)

lemma to_int_col_int: "to_int_col parse (Num n) = Num n"
  by (simp add: to_int_col_def to_numeric_def fillna_def)

lemma dom_parse_profile:
  assumes "parse_profile norm = Inr extras"
  shows "dom extras = dom default_extras"
  using assms
proof (cases rule: parse_profile_Inr)
  case plain
  then show ?thesis by (simp add: base_extras_dom)
next
  case (filled base m dedup order)
  note d = base_extras_dom [OF filled(1)]
  have k: "''Reference Industries'' \<in> dom default_extras" by (simp add: dom_default_extras)
  with d have d': "dom (base(''Reference Industries'' \<mapsto> v)) = dom default_extras" for v
    by auto
  have "set ALLOWED_RI_COLS \<subseteq> dom (base(''Reference Industries'' \<mapsto> v))" for v
    unfolding d' dom_default_extras by blast
  from fill_ri_dom [OF this] d' filled(5) show ?thesis by simp
qed

lemma dom_fetch_profile_extras:
  assumes "fetch_profile_extras get_text s profile_url = (Inr extras, s')"
  shows "dom extras = dom default_extras"
proof -
  from assms have "extras = default_extras \<or> (\<exists>norm. parse_profile norm = Inr extras)"
    by (auto simp: fetch_profile_extras_def session_get_def Let_def
        split: option.splits response.splits if_splits)
  then show ?thesis using dom_parse_profile by blast
qed

lemma parse_profile_unmatched:
  assumes cat: "lab \<in> set ALLOWED_INDUSTRIES" and un: "lab \<notin> matched_labels norm"
    and ret: "parse_profile norm = Inr extras"
  shows "extras (make_safe_ri_column lab) = Some (Num 0)"
proof -
  from cat have col: "make_safe_ri_column lab \<in> set ALLOWED_RI_COLS"
    by (simp add: ALLOWED_RI_COLS_map)
  from ret show ?thesis
  proof (cases rule: parse_profile_Inr)
    case plain
    from base_extras_ri [OF plain(1) col] show ?thesis .
  next
    case (filled base m dedup order)
    note zero = base_extras_ri [OF filled(1) col]
    note res = dedup_loop_result [OF filled(4)]
    from un filled(2) have "lab \<notin> snd ` set (found_industries norm m)"
      by (simp add: matched_labels_def)
    with res(1) res(2) have notin: "lab \<notin> fst ` set dedup"
      by (metis set_first_seen set_map)
    have "make_safe_ri_column lab \<noteq> ''Reference Industries''"
      using ri_col_not_extra(6) [OF col] .
    with fill_ri_unmatched [OF cat notin] zero filled(5) show ?thesis by simp
  qed
qed

lemma cell_at_upd: "cell_at (r(k \<mapsto> v)) c = (if c = k then v else cell_at r c)"
  by (simp add: cell_at_def)

text \<open>
  C1. Whatever the input table, the industry counts of every row of the final table have
  exactly the 22 catalog columns as keys, each holding an integer, which is the coerced
  cell of the input row (0 when the input row has no such cell). The 22 columns are the
  identifiers of the catalog labels, all different. The zeroed dictionary has exactly
  these keys, all 0. Whenever the profile extractor returns extras, for a profile fetched
  or not, they have exactly these industry keys, and a catalog label that was not matched
  on the page has count 0. (The extractor raises on a page with a count of more than 4300
  digits; then no record is assembled from it.)
\<close>

theorem industry_columns_fixed:
  "(\<forall>r \<in> set (clean_and_export parse df).
      dom (industry_counts r) = set ALLOWED_RI_COLS \<and>
      card (dom (industry_counts r)) = 22 \<and>
      (\<forall>c \<in> set ALLOWED_RI_COLS. \<exists>n. r c = Some (Num n)) \<and>
      (\<exists>r0 \<in> set df. \<forall>c \<in> set ALLOWED_RI_COLS. r c = Some (to_int_col parse (cell_at r0 c)))) \<and>
   to_int_col parse NA = Num 0 \<and> to_int_col parse (Num 0) = Num 0 \<and>
   ALLOWED_RI_COLS = map make_safe_ri_column ALLOWED_INDUSTRIES \<and>
   distinct ALLOWED_RI_COLS \<and> length ALLOWED_RI_COLS = 22 \<and>
   dom init_ri_zero_dict = set ALLOWED_RI_COLS \<and>
   (\<forall>c \<in> set ALLOWED_RI_COLS. init_ri_zero_dict c = Some (Num 0)) \<and>
   (\<forall>extras s'. fetch_profile_extras get_text s profile_url = (Inr extras, s') \<longrightarrow>
      dom (industry_counts extras) = set ALLOWED_RI_COLS) \<and>
   (\<forall>extras. parse_profile norm = Inr extras \<longrightarrow>
      dom (industry_counts extras) = set ALLOWED_RI_COLS \<and>
      (\<forall>lab \<in> set ALLOWED_INDUSTRIES.
         lab \<notin> matched_labels norm \<longrightarrow> extras (make_safe_ri_column lab) = Some (Num 0)))"
proof -
  have rows: "dom (industry_counts r) = set ALLOWED_RI_COLS \<and>
      card (dom (industry_counts r)) = 22 \<and>
      (\<forall>c \<in> set ALLOWED_RI_COLS. \<exists>n. r c = Some (Num n)) \<and>
      (\<exists>r0 \<in> set df. \<forall>c \<in> set ALLOWED_RI_COLS. r c = Some (to_int_col parse (cell_at r0 c)))"
    if "r \<in> set (clean_and_export parse df)" for r
  proof -
    from that clean_and_export_subset have "r \<in> set (kept_rows parse df)" by blast
    then obtain r0 where r0: "r0 \<in> set df" "r = clean_row parse r0"
      by (auto simp: kept_rows_def)
    from r0(2) have d: "dom (industry_counts r) = set ALLOWED_RI_COLS"
      by (simp add: industry_counts_expected dom_clean_row)
    moreover from d have "card (dom (industry_counts r)) = 22" by (simp add: card_ri_cols)
    moreover have cells: "\<forall>c \<in> set ALLOWED_RI_COLS. r c = Some (to_int_col parse (cell_at r0 c))"
      using r0(2) by (simp add: clean_row_ri)
    moreover from cells have "\<forall>c \<in> set ALLOWED_RI_COLS. \<exists>n. r c = Some (Num n)"
      using to_int_col_Num by metis
    ultimately show ?thesis using r0(1) by blast
  qed
  have init: "dom init_ri_zero_dict = set ALLOWED_RI_COLS"
    by (auto simp: init_ri_zero_dict_apply split: if_splits)
  have init0: "\<forall>c \<in> set ALLOWED_RI_COLS. init_ri_zero_dict c = Some (Num 0)"
    by (simp add: init_ri_zero_dict_apply)
  have fetch: "\<forall>extras s'. fetch_profile_extras get_text s profile_url = (Inr extras, s') \<longrightarrow>
      dom (industry_counts extras) = set ALLOWED_RI_COLS"
    using industry_counts_extras dom_fetch_profile_extras by blast
  have prof: "\<forall>extras. parse_profile norm = Inr extras \<longrightarrow>
      dom (industry_counts extras) = set ALLOWED_RI_COLS \<and>
      (\<forall>lab \<in> set ALLOWED_INDUSTRIES.
         lab \<notin> matched_labels norm \<longrightarrow> extras (make_safe_ri_column lab) = Some (Num 0))"
    using industry_counts_extras dom_parse_profile parse_profile_unmatched by blast
  have all_rows: "\<forall>r \<in> set (clean_and_export parse df).
      dom (industry_counts r) = set ALLOWED_RI_COLS \<and>
      card (dom (industry_counts r)) = 22 \<and>
      (\<forall>c \<in> set ALLOWED_RI_COLS. \<exists>n. r c = Some (Num n)) \<and>
      (\<exists>r0 \<in> set df. \<forall>c \<in> set ALLOWED_RI_COLS. r c = Some (to_int_col parse (cell_at r0 c)))"
    using rows by blast
  show ?thesis
    by (intro conjI all_rows to_int_col_missing to_int_col_int ALLOWED_RI_COLS_map
        distinct_ALLOWED_RI_COLS length_ALLOWED_RI_COLS init init0 fetch prof)
qed

lemma profile_example:
  "\<exists>extras. parse_profile ''References - 9 3 Agriculture'' = Inr extras \<and>
     extras ''RI_Agriculture'' = Some (Num 3)"
proof -
  have "(case parse_profile ''References - 9 3 Agriculture'' of
           Inl e \<Rightarrow> None | Inr extras \<Rightarrow> extras ''RI_Agriculture'') = Some (Num 3)"
    by code_simp
  then show ?thesis by (cases "parse_profile ''References - 9 3 Agriculture''") simp_all
qed

lemma profile_example_unmatched: "''Education'' \<notin> matched_labels ''References - 9 3 Agriculture''"
proof -
  have "map_option (found_industries ''References - 9 3 Agriculture'')
          (re_search True TOTAL_RE ''References - 9 3 Agriculture'') = Some [(''3'', ''Agriculture'')]"
    by code_simp
  then show ?thesis by (auto simp: matched_labels_def)
qed

text \<open>
  The theorem on a one-row table whose row brings a count for one catalog column, a column
  outside the catalog, and nothing for the other catalog columns; and on a profile page
  with one industry, from which the extractor returns extras with the 22 industry keys,
  the count of the industry found and 0 for another.
\<close>

theorem industry_columns_fixed_witness:
  "(\<exists>r. clean_and_export parse_digits [(draft ''5'' ''0'' ''/b'')(''RI_NGO'' \<mapsto> Num 3, ''RI_Bogus'' \<mapsto> Num 9)] = [r] \<and>
       dom (industry_counts r) = set ALLOWED_RI_COLS \<and>
       card (dom (industry_counts r)) = 22 \<and>
       r ''RI_Bogus'' = None \<and>
       r ''RI_NGO'' = Some (Num 3) \<and>
       r ''RI_Education'' = Some (Num 0)) \<and>
   (\<exists>extras. parse_profile ''References - 9 3 Agriculture'' = Inr extras \<and>
       dom (industry_counts extras) = set ALLOWED_RI_COLS \<and>
       extras ''RI_Agriculture'' = Some (Num 3) \<and>
       extras ''RI_Education'' = Some (Num 0))"
proof -
  let ?x = "(draft ''5'' ''0'' ''/b'')(''RI_NGO'' \<mapsto> Num 3, ''RI_Bogus'' \<mapsto> Num 9)"
  let ?r = "clean_row parse_digits ?x"
  let ?w = "''References - 9 3 Agriculture''"
  note thm1 = industry_columns_fixed [of parse_digits "[?x]" id "\<lparr>server = (\<lambda>u. Raised), requests = []\<rparr>" None ?w]
  have "keep_row ?r"
    by (simp add: keep_row_clean cell_at_upd draft_cells acme_not_placeholder digits_examples gt0_def)
  then have table: "clean_and_export parse_digits [?x] = [?r]"
    by (simp add: clean_and_export_rows kept_rows_def drop_duplicates_def Let_def)
  then have mem: "?r \<in> set (clean_and_export parse_digits [?x])" by simp
  note inst = thm1 [THEN conjunct1, THEN bspec, OF mem]
  from inst have d: "dom (industry_counts ?r) = set ALLOWED_RI_COLS"
    and c: "card (dom (industry_counts ?r)) = 22" by blast+
  from inst have cells: "\<forall>c \<in> set ALLOWED_RI_COLS. ?r c = Some (to_int_col parse_digits (cell_at ?x c))"
    by auto
  have cols: "''RI_NGO'' \<in> set ALLOWED_RI_COLS" "''RI_Education'' \<in> set ALLOWED_RI_COLS"
    "''RI_Bogus'' \<notin> set ALLOWED_RI_COLS"
    by (simp_all add: ALLOWED_RI_COLS_code)
  have "''RI_Bogus'' \<notin> set base_cols" by (simp add: base_cols_def)
  with d cols(3) have bogus: "?r ''RI_Bogus'' = None"
    by (auto simp: industry_counts_def dom_def restrict_map_def split: if_splits)
  have x_ngo: "cell_at ?x ''RI_NGO'' = Num 3" by (simp add: cell_at_upd)
  have x_edu: "cell_at ?x ''RI_Education'' = NA" by (simp add: cell_at_def draft_def)
  from cells cols(1) x_ngo have ngo: "?r ''RI_NGO'' = Some (Num 3)"
    by (simp add: to_int_col_int)
  from cells cols(2) x_edu have edu: "?r ''RI_Education'' = Some (Num 0)"
    by (simp add: to_int_col_missing)
  from table d c bogus ngo edu have first:
    "\<exists>r. clean_and_export parse_digits [?x] = [r] \<and>
       dom (industry_counts r) = set ALLOWED_RI_COLS \<and>
       card (dom (industry_counts r)) = 22 \<and>
       r ''RI_Bogus'' = None \<and>
       r ''RI_NGO'' = Some (Num 3) \<and>
       r ''RI_Education'' = Some (Num 0)"
    by blast
  from profile_example obtain extras where e: "parse_profile ?w = Inr extras"
    and agri: "extras ''RI_Agriculture'' = Some (Num 3)" by blast
  have prof: "\<forall>extras. parse_profile ?w = Inr extras \<longrightarrow>
      dom (industry_counts extras) = set ALLOWED_RI_COLS \<and>
      (\<forall>lab \<in> set ALLOWED_INDUSTRIES.
         lab \<notin> matched_labels ?w \<longrightarrow> extras (make_safe_ri_column lab) = Some (Num 0))"
    using thm1 by (elim conjE)
  have edu_cat: "''Education'' \<in> set ALLOWED_INDUSTRIES" by (simp add: ALLOWED_INDUSTRIES_def)
  have edu_col: "make_safe_ri_column ''Education'' = ''RI_Education''" by code_simp
  from prof e have pd: "dom (industry_counts extras) = set ALLOWED_RI_COLS"
    and pz: "\<forall>lab \<in> set ALLOWED_INDUSTRIES.
         lab \<notin> matched_labels ?w \<longrightarrow> extras (make_safe_ri_column lab) = Some (Num 0)"
    by blast+
  from pz edu_cat profile_example_unmatched have "extras (make_safe_ri_column ''Education'') = Some (Num 0)"
    by blast
  then have "extras ''RI_Education'' = Some (Num 0)" by (simp only: edu_col)
  with e pd agri have second: "\<exists>extras. parse_profile ?w = Inr extras \<and>
       dom (industry_counts extras) = set ALLOWED_RI_COLS \<and>
       extras ''RI_Agriculture'' = Some (Num 3) \<and>
       extras ''RI_Education'' = Some (Num 0)"
    by blast
  from first second show ?thesis by (rule conjI)
qed

end
